theory Spec2Isabelle
  imports Complex_Main
begin

section \<open>Python values shared by the scripts\<close>

text \<open>
  A Python \<open>str\<close> is a sequence of Unicode code points; a code point is a natural number.
  Slicing and \<open>find\<close> count code points, so file names outside ASCII are covered.
  \<open>ustr\<close> embeds an ASCII literal of the source.
\<close>

type_synonym pystr = "nat list"

definition ustr :: "string \<Rightarrow> pystr" where
  "ustr s = map of_char s"

datatype error =
    ValueError
  | FileNotFoundError
  | FileExistsError
  | UnidentifiedImageError
  | OSError

section \<open>The training script (ML test.py)\<close>

subsection \<open>Learning-rate schedule and optimizer\<close>

text \<open>
  \<^verbatim>\<open>lr_schedule = PiecewiseConstantDecay(boundaries=[100, 200], values=[lr, 0.0005, 0.0001])\<close>

  The constructor of the Keras schedule rejects a value list that is not one longer than
  the boundary list. Called with the optimizer's step, it returns the first value while
  \<open>step \<le> boundaries[0]\<close>, the last value when \<open>step > boundaries[-1]\<close>, and for each
  consecutive pair \<open>low, high\<close> of boundaries the value between them when
  \<open>low < step \<le> high\<close>; the default is the first value.
\<close>

record schedule =
  boundaries :: "nat list"
  schedule_values :: "real list"

definition PiecewiseConstantDecay :: "nat list \<Rightarrow> real list \<Rightarrow> error + schedule" where
  "PiecewiseConstantDecay bs vs =
     (if length bs + 1 \<noteq> length vs then Inl ValueError
      else Inr \<lparr>boundaries = bs, schedule_values = vs\<rparr>)"

fun between :: "nat list \<Rightarrow> real list \<Rightarrow> nat \<Rightarrow> real option" where
  "between (low # high # bs) (v # vs) step =
     (if low < step \<and> step \<le> high then Some v else between (high # bs) vs step)"
| "between _ _ step = None"

definition schedule_call :: "schedule \<Rightarrow> nat \<Rightarrow> real" where
  "schedule_call s step =
     (case (boundaries s, schedule_values s) of
        (b # bs, v # vs) \<Rightarrow>
          (if step \<le> b then v
           else if last (b # bs) < step then last (v # vs)
           else (case between (b # bs) vs step of Some w \<Rightarrow> w | None \<Rightarrow> v))
      | (_, v # vs) \<Rightarrow> v
      | (_, []) \<Rightarrow> 0)"

definition lr :: real where
  "lr = 0.001"

definition lr_schedule :: schedule where
  "lr_schedule = \<lparr>boundaries = [100, 200], schedule_values = [lr, 0.0005, 0.0001]\<rparr>"

text \<open>
  \<^verbatim>\<open>optimizer = SGD(learning_rate=lr_schedule, momentum=0.9)\<close>

  The optimizer evaluates its schedule at \<open>iterations\<close>, the number of batch updates it
  has applied so far. In \<open>fit\<close>, batch \<open>k\<close> of epoch \<open>e\<close> (both counted from 0) of a feed
  with \<open>steps_per_epoch\<close> batches is update number \<open>e * steps_per_epoch + k\<close>.
\<close>

record SGD =
  learning_rate :: schedule
  momentum :: real

definition optimizer :: SGD where
  "optimizer = \<lparr>learning_rate = lr_schedule, momentum = 0.9\<rparr>"

definition decayed_lr :: "SGD \<Rightarrow> nat \<Rightarrow> real" where
  "decayed_lr opt iterations = schedule_call (learning_rate opt) iterations"

definition iterations_at :: "nat \<Rightarrow> nat \<Rightarrow> nat \<Rightarrow> nat" where
  "iterations_at steps_per_epoch e k = e * steps_per_epoch + k"

definition lr_in_epoch :: "nat \<Rightarrow> nat \<Rightarrow> nat \<Rightarrow> real" where
  "lr_in_epoch steps_per_epoch e k = decayed_lr optimizer (iterations_at steps_per_epoch e k)"

subsection \<open>Checkpoint callback and the fit loop\<close>

text \<open>
  \<^verbatim>\<open>cp_callback = ModelCheckpoint(filepath=f'./model', save_weights_only=False,
                                save_best_only=True, monitor="val_accuracy", verbose=1)\<close>

  Keras' callback, with \<open>mode\<close> left at \<open>'auto'\<close> and \<open>save_freq\<close> at \<open>'epoch'\<close>: a monitor
  whose name contains \<open>acc\<close> (or starts with \<open>fmeasure\<close>) is compared with \<open>greater\<close>
  against a best value that starts at minus infinity, any other monitor with \<open>less\<close>
  against plus infinity. At the end of each epoch, with \<open>save_best_only\<close>, the monitored
  entry of the epoch's logs is read; a missing entry skips the epoch, a value that the
  comparison accepts against \<open>best\<close> becomes the new \<open>best\<close> and the model is saved to
  \<open>filepath\<close>, any other value saves nothing. Without \<open>save_best_only\<close> every epoch saves.
\<close>

datatype bound = NegInf | Fin real | PosInf

datatype monitor_op = Greater | Less

fun improves :: "monitor_op \<Rightarrow> real \<Rightarrow> bound \<Rightarrow> bool" where
  "improves Greater current NegInf = True"
| "improves Greater current (Fin b) = (b < current)"
| "improves Greater current PosInf = False"
| "improves Less current NegInf = False"
| "improves Less current (Fin b) = (current < b)"
| "improves Less current PosInf = True"

fun contains :: "string \<Rightarrow> string \<Rightarrow> bool" where
  "contains sub [] = (sub = [])"
| "contains sub (c # cs) = (take (length sub) (c # cs) = sub \<or> contains sub cs)"

record ModelCheckpoint =
  filepath :: pystr
  save_weights_only :: bool
  save_best_only :: bool
  monitor :: string
  verbose :: int

definition cp_callback :: ModelCheckpoint where
  "cp_callback =
     \<lparr>filepath = ustr ''./model'', save_weights_only = False, save_best_only = True,
      monitor = ''val_accuracy'', verbose = 1\<rparr>"

definition monitor_op_of :: "ModelCheckpoint \<Rightarrow> monitor_op" where
  "monitor_op_of cb =
     (if contains ''acc'' (monitor cb) \<or> take 8 (monitor cb) = ''fmeasure'' then Greater
      else Less)"

record checkpoint_write =
  target :: pystr
  weights_only :: bool
  at_epoch :: nat

record checkpoint_state =
  best :: bound
  writes :: "checkpoint_write list"

definition on_train_begin :: "ModelCheckpoint \<Rightarrow> checkpoint_state" where
  "on_train_begin cb =
     \<lparr>best = (case monitor_op_of cb of Greater \<Rightarrow> NegInf | Less \<Rightarrow> PosInf), writes = []\<rparr>"

definition save_model :: "ModelCheckpoint \<Rightarrow> nat \<Rightarrow> checkpoint_state \<Rightarrow> checkpoint_state" where
  "save_model cb epoch st =
     st\<lparr>writes := writes st @
        [\<lparr>target = filepath cb, weights_only = save_weights_only cb, at_epoch = epoch\<rparr>]\<rparr>"

definition on_epoch_end ::
  "ModelCheckpoint \<Rightarrow> nat \<Rightarrow> (string \<rightharpoonup> real) \<Rightarrow> checkpoint_state \<Rightarrow> checkpoint_state" where
  "on_epoch_end cb epoch logs st =
     (if save_best_only cb then
        (case logs (monitor cb) of
           None \<Rightarrow> st
         | Some current \<Rightarrow>
             if improves (monitor_op_of cb) current (best st)
             then save_model cb epoch (st\<lparr>best := Fin current\<rparr>)
             else st)
      else save_model cb epoch st)"

text \<open>
  \<^verbatim>\<open>model.compile(loss='categorical_crossentropy', optimizer=optimizer,
                metrics=['accuracy', top_2_acc])
  history = model.fit(train_generator, epochs=100, validation_data=val_generator,
                      callbacks=[cp_callback])\<close>

  With these metrics and a validation feed, the logs of an epoch hold the loss and the two
  metrics for the training feed and, prefixed with \<open>val_\<close>, for the validation feed. Their
  values come out of the training itself and are a parameter here: \<open>history e\<close> is what
  epoch \<open>e\<close> measured. \<open>fit\<close> runs the callback at the end of epochs \<open>0, \<dots>, epochs - 1\<close>.
\<close>

record epoch_metrics =
  loss :: real
  accuracy :: real
  top_2_categorical_accuracy :: real
  val_loss :: real
  val_accuracy :: real
  val_top_2_categorical_accuracy :: real

definition logs_of :: "epoch_metrics \<Rightarrow> (string \<rightharpoonup> real)" where
  "logs_of m =
     map_of
       [(''loss'', loss m), (''accuracy'', accuracy m),
        (''top_2_categorical_accuracy'', top_2_categorical_accuracy m),
        (''val_loss'', val_loss m), (''val_accuracy'', val_accuracy m),
        (''val_top_2_categorical_accuracy'', val_top_2_categorical_accuracy m)]"

definition fit :: "ModelCheckpoint \<Rightarrow> nat \<Rightarrow> (nat \<Rightarrow> epoch_metrics) \<Rightarrow> checkpoint_state" where
  "fit cb epochs history =
     fold (\<lambda>e st. on_epoch_end cb e (logs_of (history e)) st) [0..<epochs] (on_train_begin cb)"

definition training_run :: "(nat \<Rightarrow> epoch_metrics) \<Rightarrow> checkpoint_state" where
  "training_run history = fit cp_callback 100 history"

text \<open>A run whose validation accuracies are the given list, with every other metric at 0.\<close>

definition fabricated :: "real list \<Rightarrow> nat \<Rightarrow> epoch_metrics" where
  "fabricated vs e =
     \<lparr>loss = 0, accuracy = 0, top_2_categorical_accuracy = 0, val_loss = 0,
      val_accuracy = (if e < length vs then vs ! e else 0),
      val_top_2_categorical_accuracy = 0\<rparr>"

text \<open>The condition of the best-so-far policy: epoch \<open>e\<close> beats every earlier epoch.\<close>

definition record_epoch :: "(nat \<Rightarrow> epoch_metrics) \<Rightarrow> nat \<Rightarrow> bool" where
  "record_epoch h e \<longleftrightarrow> (\<forall>j<e. val_accuracy (h j) < val_accuracy (h e))"

subsection \<open>Model assembly\<close>

text \<open>
  \<^verbatim>\<open>def get_model(handle="https://tfhub.dev/...", num_classes=4):
      hub_layer = hub.KerasLayer(handle, trainable=True)
      model = tf.keras.Sequential([InputLayer((300, 300, 3)), hub_layer,
          BatchNormalization(True), Dense(1024, activation="swish"), Dropout(0.25),
          Dense(512, activation="swish"), Dropout(0.25), Dense(256, activation="swish"),
          Dense(128, activation="swish"), Dense(64, activation="swish"),
          Dense(num_classes, activation="softmax")])
      return model\<close>

  The first positional argument of \<open>BatchNormalization\<close> is its axis; the source passes
  \<open>True\<close>, Python's integer 1. A class count is a natural number. A \<open>Sequential\<close> that
  has not been compiled carries no loss, optimizer or metrics.
\<close>

datatype layer =
    InputLayer "nat list"
  | KerasLayer pystr bool
  | BatchNormalization int
  | Dense nat string
  | Dropout real

record compile_args =
  compile_loss :: string
  compile_optimizer :: SGD
  compile_metrics :: "string list"

record Sequential =
  layers :: "layer list"
  compiled :: "compile_args option"

definition default_handle :: pystr where
  "default_handle =
     ustr ''https://tfhub.dev/google/imagenet/efficientnet_v2_imagenet21k_ft1k_b3/classification/2''"

definition get_model :: "pystr \<Rightarrow> nat \<Rightarrow> Sequential" where
  "get_model handle num_classes =
     \<lparr>layers =
        [InputLayer [300, 300, 3],
         KerasLayer handle True,
         BatchNormalization 1,
         Dense 1024 ''swish'',
         Dropout 0.25,
         Dense 512 ''swish'',
         Dropout 0.25,
         Dense 256 ''swish'',
         Dense 128 ''swish'',
         Dense 64 ''swish'',
         Dense num_classes ''softmax''],
      compiled = None\<rparr>"

definition compile :: "Sequential \<Rightarrow> string \<Rightarrow> SGD \<Rightarrow> string list \<Rightarrow> Sequential" where
  "compile m l opt ms =
     m\<lparr>compiled := Some \<lparr>compile_loss = l, compile_optimizer = opt, compile_metrics = ms\<rparr>\<rparr>"

definition model :: Sequential where
  "model =
     compile (get_model default_handle 4) ''categorical_crossentropy'' optimizer
       [''accuracy'', ''top_2_categorical_accuracy'']"

text \<open>Observations on a layer stack.\<close>

fun is_dropout :: "layer \<Rightarrow> bool" where
  "is_dropout (Dropout r) = True"
| "is_dropout _ = False"

fun dense_units :: "layer \<Rightarrow> nat option" where
  "dense_units (Dense u a) = Some u"
| "dense_units _ = None"

fun dense_activation :: "layer \<Rightarrow> string option" where
  "dense_activation (Dense u a) = Some a"
| "dense_activation _ = None"

text \<open>The layers that stand immediately before a dropout layer.\<close>

fun before_dropout :: "layer list \<Rightarrow> layer list" where
  "before_dropout (l # Dropout r # ls) = l # before_dropout (Dropout r # ls)"
| "before_dropout (l # ls) = before_dropout ls"
| "before_dropout [] = []"











subsection \<open>Data feeds\<close>

text \<open>
  \<^verbatim>\<open>def image_generator(image_size, validation_rate, batch_size):
      train_datagen = ImageDataGenerator(rescale=1./255, rotation_range=20, zoom_range=0.15,
          width_shift_range=0.2, height_shift_range=0.2, shear_range=0.15,
          horizontal_flip=True, fill_mode="nearest", validation_split=validation_rate)
      test_datagen = ImageDataGenerator(rescale=1./255,)
      train_generator = train_datagen.flow_from_directory(train_path,
          target_size=(image_size, image_size), subset='training',
          batch_size=batch_size, color_mode='rgb')
      val_generator = train_datagen.flow_from_directory(train_path,
          target_size=(image_size, image_size), subset='validation',
          batch_size=batch_size, color_mode='rgb')
      test_generator = test_datagen.flow_from_directory(test_path,
          target_size=(image_size, image_size), batch_size=1)
      return train_generator, val_generator, test_generator\<close>

  A Keras \<open>ImageDataGenerator\<close> is the record of its settings; every setting that the
  source does not pass keeps the library's default, which switches the transform off.
  The constructor rejects a validation split that is neither 0 nor strictly between 0
  and 1. \<open>flow_from_directory\<close> returns an iterator that keeps a reference to the
  generator it was called on, whatever the subset.
\<close>

record ImageDataGenerator =
  rescale :: "real option"
  rotation_range :: real
  zoom_range :: real
  width_shift_range :: real
  height_shift_range :: real
  shear_range :: real
  horizontal_flip :: bool
  fill_mode :: string
  validation_split :: real

definition library_defaults :: ImageDataGenerator where
  "library_defaults =
     \<lparr>rescale = None, rotation_range = 0, zoom_range = 0, width_shift_range = 0,
      height_shift_range = 0, shear_range = 0, horizontal_flip = False,
      fill_mode = ''nearest'', validation_split = 0\<rparr>"

definition new_ImageDataGenerator :: "ImageDataGenerator \<Rightarrow> error + ImageDataGenerator" where
  "new_ImageDataGenerator g =
     (if validation_split g \<noteq> 0 \<and> \<not> (0 < validation_split g \<and> validation_split g < 1)
      then Inl ValueError else Inr g)"

record DirectoryIterator =
  image_data_generator :: ImageDataGenerator
  directory :: pystr
  target_size :: "int \<times> int"
  subset :: "string option"
  batch_size :: int
  color_mode :: string

definition flow_from_directory ::
  "ImageDataGenerator \<Rightarrow> pystr \<Rightarrow> int \<times> int \<Rightarrow> string option \<Rightarrow> int \<Rightarrow> string
     \<Rightarrow> DirectoryIterator" where
  "flow_from_directory g dir ts sub bs cm =
     \<lparr>image_data_generator = g, directory = dir, target_size = ts, subset = sub,
      batch_size = bs, color_mode = cm\<rparr>"

definition train_path :: pystr where
  "train_path = ustr ''./car_image2/train''"

definition test_path :: pystr where
  "test_path = ustr ''./car_image2/test''"

definition image_generator ::
  "int \<Rightarrow> real \<Rightarrow> int
     \<Rightarrow> error + (DirectoryIterator \<times> DirectoryIterator \<times> DirectoryIterator)" where
  "image_generator image_size validation_rate batch_sz =
     (case new_ImageDataGenerator
             (library_defaults
                \<lparr>rescale := Some (1 / 255), rotation_range := 20, zoom_range := 0.15,
                 width_shift_range := 0.2, height_shift_range := 0.2, shear_range := 0.15,
                 horizontal_flip := True, fill_mode := ''nearest'',
                 validation_split := validation_rate\<rparr>) of
        Inl e \<Rightarrow> Inl e
      | Inr train_datagen \<Rightarrow>
          (case new_ImageDataGenerator (library_defaults\<lparr>rescale := Some (1 / 255)\<rparr>) of
             Inl e \<Rightarrow> Inl e
           | Inr test_datagen \<Rightarrow>
               Inr (flow_from_directory train_datagen train_path (image_size, image_size)
                      (Some ''training'') batch_sz ''rgb'',
                    flow_from_directory train_datagen train_path (image_size, image_size)
                      (Some ''validation'') batch_sz ''rgb'',
                    flow_from_directory test_datagen test_path (image_size, image_size)
                      None 1 ''rgb'')))"

text \<open>
  \<^verbatim>\<open>config['image_size'] = 300; config['validation_rate'] = 0.2; config['batch_size'] = 16
  train_generator, val_generator, test_generator = image_generator(...)\<close>
\<close>

definition train_generator :: DirectoryIterator where
  "train_generator = fst (projr (image_generator 300 0.2 16))"

definition val_generator :: DirectoryIterator where
  "val_generator = fst (snd (projr (image_generator 300 0.2 16)))"

definition test_generator :: DirectoryIterator where
  "test_generator = snd (snd (projr (image_generator 300 0.2 16)))"

text \<open>
  What an iterator yields. For each image it loads (already resized to the target size)
  the iterator asks its generator for a random transform, applies it, and standardizes
  the result. The generator draws the rotation angle \<open>theta\<close>, the shifts \<open>tx\<close>, \<open>ty\<close> (as
  fractions of the image), the shear and the zooms \<open>zx\<close>, \<open>zy\<close> uniformly within its
  ranges, a range of 0 giving the neutral value, and flips only if \<open>horizontal_flip\<close> is
  set. \<open>may_draw g p\<close> says that \<open>p\<close> is a transform the generator \<open>g\<close> can draw. The neutral
  transform leaves the image untouched; standardizing multiplies by \<open>rescale\<close>, if set.
  The pixel operations themselves (the affine warp with its fill mode and the scaling)
  belong to the library and are a parameter.
\<close>

record transform =
  theta :: real
  tx :: real
  ty :: real
  shear :: real
  zx :: real
  zy :: real
  flip_horizontal :: bool

definition identity_transform :: transform where
  "identity_transform =
     \<lparr>theta = 0, tx = 0, ty = 0, shear = 0, zx = 1, zy = 1, flip_horizontal = False\<rparr>"

definition may_draw :: "ImageDataGenerator \<Rightarrow> transform \<Rightarrow> bool" where
  "may_draw g p \<longleftrightarrow>
     (if rotation_range g = 0 then theta p = 0 else \<bar>theta p\<bar> \<le> \<bar>rotation_range g\<bar>)
     \<and> (if height_shift_range g = 0 then tx p = 0 else \<bar>tx p\<bar> \<le> \<bar>height_shift_range g\<bar>)
     \<and> (if width_shift_range g = 0 then ty p = 0 else \<bar>ty p\<bar> \<le> \<bar>width_shift_range g\<bar>)
     \<and> (if shear_range g = 0 then shear p = 0 else \<bar>shear p\<bar> \<le> \<bar>shear_range g\<bar>)
     \<and> (if zoom_range g = 0 then zx p = 1 \<and> zy p = 1
         else \<bar>zx p - 1\<bar> \<le> \<bar>zoom_range g\<bar> \<and> \<bar>zy p - 1\<bar> \<le> \<bar>zoom_range g\<bar>)
     \<and> (flip_horizontal p \<longrightarrow> horizontal_flip g)"

record 'img pixel_ops =
  warp :: "transform \<Rightarrow> 'img \<Rightarrow> 'img"
  scale_by :: "real \<Rightarrow> 'img \<Rightarrow> 'img"

definition apply_transform :: "'img pixel_ops \<Rightarrow> transform \<Rightarrow> 'img \<Rightarrow> 'img" where
  "apply_transform ops p x = (if p = identity_transform then x else warp ops p x)"

definition standardize :: "'img pixel_ops \<Rightarrow> ImageDataGenerator \<Rightarrow> 'img \<Rightarrow> 'img" where
  "standardize ops g x =
     (case rescale g of None \<Rightarrow> x | Some r \<Rightarrow> if r = 0 then x else scale_by ops r x)"

definition yielded :: "'img pixel_ops \<Rightarrow> DirectoryIterator \<Rightarrow> transform \<Rightarrow> 'img \<Rightarrow> 'img" where
  "yielded ops it p x =
     standardize ops (image_data_generator it) (apply_transform ops p x)"

text \<open>
  One instance of the pixel operations, on grey images given as rows of pixel values:
  scaling multiplies every pixel, and a transform that only flips reverses every row.
\<close>

definition row_ops :: "real list list pixel_ops" where
  "row_ops =
     \<lparr>warp = (\<lambda>p img. if flip_horizontal p then map rev img else img),
      scale_by = (\<lambda>r img. map (map (\<lambda>v. r * v)) img)\<rparr>"

definition flip_only :: transform where
  "flip_only = identity_transform\<lparr>flip_horizontal := True\<rparr>"

section \<open>The batch scripts (background removal and resize)\<close>

subsection \<open>Strings and paths\<close>

definition BACKSLASH :: nat where
  "BACKSLASH = 92"

definition SLASH :: nat where
  "SLASH = 47"

definition DOT :: nat where
  "DOT = 46"

text \<open>\<open>s.find(c)\<close> for a one-character \<open>c\<close>: the lowest index of \<open>c\<close> in \<open>s\<close>, or -1.\<close>

fun py_find :: "pystr \<Rightarrow> nat \<Rightarrow> int" where
  "py_find [] c = - 1"
| "py_find (x # xs) c =
     (if x = c then 0 else (let i = py_find xs c in if i < 0 then - 1 else i + 1))"

text \<open>\<open>s.rfind(c)\<close>: the highest index of \<open>c\<close> in \<open>s\<close>, or -1.\<close>

definition py_rfind :: "pystr \<Rightarrow> nat \<Rightarrow> int" where
  "py_rfind s c =
     (let i = py_find (rev s) c in if i < 0 then - 1 else int (length s) - 1 - i)"

text \<open>
  The slices \<open>s[:i]\<close> and \<open>s[i:]\<close>: a negative index counts from the end, and an index
  out of range is clamped.
\<close>

definition slice_to :: "pystr \<Rightarrow> int \<Rightarrow> pystr" where
  "slice_to s i = take (nat (if i < 0 then int (length s) + i else i)) s"

definition slice_from :: "pystr \<Rightarrow> int \<Rightarrow> pystr" where
  "slice_from s i = drop (nat (if i < 0 then int (length s) + i else i)) s"

text \<open>\<open>str(n)\<close> for a count: its decimal digits.\<close>

fun str_nat :: "nat \<Rightarrow> pystr" where
  "str_nat n = (if n < 10 then [48 + n] else str_nat (n div 10) @ [48 + n mod 10])"

declare str_nat.simps [simp del]

text \<open>
  \<open>os.path.splitext\<close>. The extension starts at the last dot of the path, provided that
  dot comes after the last separator and some character between that separator and the
  dot is not a dot (a leading dot of the file name starts no extension); otherwise the
  extension is empty. On POSIX the separator is the slash; on Windows the backslash,
  with the slash as alternative separator.
\<close>

datatype platform = Posix | Windows

fun sep :: "platform \<Rightarrow> nat" where
  "sep Posix = SLASH"
| "sep Windows = BACKSLASH"

fun altsep :: "platform \<Rightarrow> nat option" where
  "altsep Posix = None"
| "altsep Windows = Some SLASH"

definition splitext :: "platform \<Rightarrow> pystr \<Rightarrow> pystr \<times> pystr" where
  "splitext pf p =
     (let sepIndex = (case altsep pf of
                        None \<Rightarrow> py_rfind p (sep pf)
                      | Some a \<Rightarrow> max (py_rfind p (sep pf)) (py_rfind p a));
          dotIndex = py_rfind p DOT
      in if sepIndex < dotIndex
            \<and> list_ex (\<lambda>c. c \<noteq> DOT)
                (take (nat (dotIndex - (sepIndex + 1))) (drop (nat (sepIndex + 1)) p))
         then (slice_to p dotIndex, slice_from p dotIndex)
         else (p, []))"

text \<open>
  \<open>glob.glob(dir + '/*' + ext)\<close> returns, in no particular order, the paths
  \<open>os.path.join(dir, name)\<close> of the entries \<open>name\<close> of the directory that do not start
  with a dot and end with \<open>ext\<close> (compared without case on Windows). An entry name holds
  no separator. \<open>glob_match\<close> is the shape of such a path.
\<close>

definition lower_ascii :: "nat \<Rightarrow> nat" where
  "lower_ascii c = (if 65 \<le> c \<and> c \<le> 90 then c + 32 else c)"

fun normcase :: "platform \<Rightarrow> pystr \<Rightarrow> pystr" where
  "normcase Posix s = s"
| "normcase Windows s = map lower_ascii s"

definition glob_match :: "platform \<Rightarrow> pystr \<Rightarrow> pystr \<Rightarrow> pystr \<Rightarrow> bool" where
  "glob_match pf dir ext p \<longleftrightarrow>
     take (length dir + 1) p = dir @ [sep pf]
     \<and> (let name = drop (length dir + 1) p in
          name \<noteq> [] \<and> hd name \<noteq> DOT
          \<and> SLASH \<notin> set name \<and> sep pf \<notin> set name
          \<and> normcase pf (drop (length name - length ext) name) = ext)"

subsection \<open>Images and the file system\<close>

text \<open>
  An image has a size, a mode and pixel data; the pixel data is opaque. A file holds a
  picture or something that does not decode. The file system maps a path, taken as the
  string it is, to the content of the file there, and has a set of directories.

  What the libraries compute on pixels, and whether the operating system lets a
  directory be made or a file be written, is not in the source: it is the parameter
  \<open>L\<close> of everything below, and each property holds for every such \<open>L\<close>.
\<close>

record 'px image =
  dims :: "nat \<times> nat"
  mode :: string
  pixels :: 'px

datatype 'px content = Picture "'px image" | Undecodable

record 'px filesystem =
  files :: "pystr \<rightharpoonup> 'px content"
  dirs :: "pystr set"

record 'px library =
  os_path :: platform
  convert_pixels :: "string \<Rightarrow> 'px image \<Rightarrow> 'px"
  resize_pixels :: "nat \<times> nat \<Rightarrow> 'px image \<Rightarrow> 'px"
  rembg :: "'px image \<Rightarrow> error + 'px image"
  mkdir_ok :: "'px filesystem \<Rightarrow> pystr \<Rightarrow> bool"
  save_ok :: "'px filesystem \<Rightarrow> pystr \<Rightarrow> bool"

definition Image_open :: "'px filesystem \<Rightarrow> pystr \<Rightarrow> error + 'px image" where
  "Image_open fsys f =
     (case files fsys f of
        None \<Rightarrow> Inl FileNotFoundError
      | Some Undecodable \<Rightarrow> Inl UnidentifiedImageError
      | Some (Picture i) \<Rightarrow> Inr i)"

definition convert :: "'px library \<Rightarrow> string \<Rightarrow> 'px image \<Rightarrow> 'px image" where
  "convert L m img = img\<lparr>mode := m, pixels := convert_pixels L m img\<rparr>"

definition resize :: "'px library \<Rightarrow> nat \<times> nat \<Rightarrow> 'px image \<Rightarrow> 'px image" where
  "resize L sz img = img\<lparr>dims := sz, pixels := resize_pixels L sz img\<rparr>"

definition save :: "'px library \<Rightarrow> 'px filesystem \<Rightarrow> 'px image \<Rightarrow> pystr \<Rightarrow> error + 'px filesystem" where
  "save L fsys img path =
     (if save_ok L fsys path then Inr (fsys\<lparr>files := (files fsys)(path \<mapsto> Picture img)\<rparr>)
      else Inl OSError)"

definition os_path_exists :: "'px filesystem \<Rightarrow> pystr \<Rightarrow> bool" where
  "os_path_exists fsys p \<longleftrightarrow> p \<in> dirs fsys \<or> files fsys p \<noteq> None"

definition os_mkdir :: "'px library \<Rightarrow> 'px filesystem \<Rightarrow> pystr \<Rightarrow> error + 'px filesystem" where
  "os_mkdir L fsys p =
     (if os_path_exists fsys p then Inl FileExistsError
      else if mkdir_ok L fsys p then Inr (fsys\<lparr>dirs := insert p (dirs fsys)\<rparr>)
      else Inl FileNotFoundError)"

text \<open>
  A \<open>for\<close> loop over the matched paths whose body may raise: the first exception ends
  the run, and what the run did before stays done.
\<close>

fun for_each :: "('s \<Rightarrow> pystr \<Rightarrow> error option \<times> 's) \<Rightarrow> 's \<Rightarrow> pystr list \<Rightarrow> error option \<times> 's" where
  "for_each body s [] = (None, s)"
| "for_each body s (f # rest) =
     (case body s f of
        (Some e, s') \<Rightarrow> (Some e, s')
      | (None, s') \<Rightarrow> for_each body s' rest)"

subsection \<open>The background-removal job\<close>

text \<open>
  \<^verbatim>\<open>files = glob.glob('./avante n/*.png')
  count = 0
  for f in files:
      img = Image.open(f).convert('RGB')
      title, ext = os.path.splitext(f)
      index = title.find('\\')
      title = title[:index]
      out = remove(img)
      new_name = title+'_remove'+str(count)+ext
      if not os.path.exists(title+'_remove'):
          os.mkdir(title+'_remove')
      out.save(title+'_remove/'+new_name)
      count+=1\<close>
\<close>

record 'px job_state =
  fs :: "'px filesystem"
  count :: nat

definition truncate_title :: "pystr \<Rightarrow> pystr" where
  "truncate_title title = (let index = py_find title BACKSLASH in slice_to title index)"

definition remove_body ::
  "'px library \<Rightarrow> 'px job_state \<Rightarrow> pystr \<Rightarrow> error option \<times> 'px job_state" where
  "remove_body L s f =
     (case Image_open (fs s) f of
        Inl e \<Rightarrow> (Some e, s)
      | Inr opened \<Rightarrow>
          (let img = convert L ''RGB'' opened;
               (title0, ext) = splitext (os_path L) f;
               title = truncate_title title0
           in case rembg L img of
                Inl e \<Rightarrow> (Some e, s)
              | Inr out \<Rightarrow>
                  (let new_name = title @ ustr ''_remove'' @ str_nat (count s) @ ext
                   in case (if \<not> os_path_exists (fs s) (title @ ustr ''_remove'')
                            then os_mkdir L (fs s) (title @ ustr ''_remove'')
                            else Inr (fs s)) of
                        Inl e \<Rightarrow> (Some e, s)
                      | Inr fs1 \<Rightarrow>
                          (case save L fs1 out (title @ ustr ''_remove/'' @ new_name) of
                             Inl e \<Rightarrow> (Some e, s\<lparr>fs := fs1\<rparr>)
                           | Inr fs2 \<Rightarrow> (None, \<lparr>fs = fs2, count = count s + 1\<rparr>)))))"

definition remove_job ::
  "'px library \<Rightarrow> 'px filesystem \<Rightarrow> pystr list \<Rightarrow> error option \<times> 'px job_state" where
  "remove_job L fsys paths = for_each (remove_body L) \<lparr>fs = fsys, count = 0\<rparr> paths"

text \<open>
  The truncated title, spelled out: the prefix before the first backslash when the
  title holds one, and the title without its last character when it holds none. And the
  file system after \<open>if not os.path.exists(d): os.mkdir(d)\<close> went through.
\<close>

definition cut_title :: "pystr \<Rightarrow> pystr" where
  "cut_title title =
     (if BACKSLASH \<in> set title then takeWhile (\<lambda>c. c \<noteq> BACKSLASH) title
      else butlast title)"

definition after_mkdir :: "'px filesystem \<Rightarrow> pystr \<Rightarrow> 'px filesystem" where
  "after_mkdir fsys d =
     (if os_path_exists fsys d then fsys else fsys\<lparr>dirs := insert d (dirs fsys)\<rparr>)"

text \<open>The directory and the path that the job derives for a file \<open>f\<close> at counter \<open>k\<close>.\<close>

definition remove_dir :: "platform \<Rightarrow> pystr \<Rightarrow> pystr" where
  "remove_dir pf f = truncate_title (fst (splitext pf f)) @ ustr ''_remove''"

definition remove_target :: "platform \<Rightarrow> pystr \<Rightarrow> nat \<Rightarrow> pystr" where
  "remove_target pf f k =
     truncate_title (fst (splitext pf f)) @ ustr ''_remove/''
       @ truncate_title (fst (splitext pf f)) @ ustr ''_remove'' @ str_nat k
       @ snd (splitext pf f)"

subsection \<open>The resize job\<close>

text \<open>
  \<^verbatim>\<open>files = glob.glob('./data/k9/*.jpg')
  for f in files:
      img = Image.open(f).convert('RGB')
      img_resize = img.resize((256,256))
      title, ext = os.path.splitext(f)
      img_resize.save(title + '_half' + ext)\<close>
\<close>

definition resize_body ::
  "'px library \<Rightarrow> 'px filesystem \<Rightarrow> pystr \<Rightarrow> error option \<times> 'px filesystem" where
  "resize_body L fsys f =
     (case Image_open fsys f of
        Inl e \<Rightarrow> (Some e, fsys)
      | Inr opened \<Rightarrow>
          (let img = convert L ''RGB'' opened;
               img_resize = resize L (256, 256) img;
               (title, ext) = splitext (os_path L) f
           in case save L fsys img_resize (title @ ustr ''_half'' @ ext) of
                Inl e \<Rightarrow> (Some e, fsys)
              | Inr fs' \<Rightarrow> (None, fs')))"

definition resize_job ::
  "'px library \<Rightarrow> 'px filesystem \<Rightarrow> pystr list \<Rightarrow> error option \<times> 'px filesystem" where
  "resize_job L fsys paths = for_each (resize_body L) fsys paths"

definition half_path :: "platform \<Rightarrow> pystr \<Rightarrow> pystr" where
  "half_path pf f = fst (splitext pf f) @ ustr ''_half'' @ snd (splitext pf f)"

text \<open>The file at a path holds an RGB picture of 256 x 256 pixels.\<close>

definition resized_picture :: "'px filesystem \<Rightarrow> pystr \<Rightarrow> bool" where
  "resized_picture fsys p =
     (case files fsys p of
        Some (Picture img) \<Rightarrow> dims img = (256, 256) \<and> mode img = ''RGB''
      | _ \<Rightarrow> False)"

subsection \<open>Instances for examples\<close>

text \<open>
  A library whose pixels carry no data, whose background removal returns the image in
  mode RGBA, and an operating system that lets every directory be made and every file be
  written; two small directories, one as a POSIX and one as a Windows \<open>glob\<close> reports it.
\<close>

definition plain_library :: "platform \<Rightarrow> unit library" where
  "plain_library pf =
     \<lparr>os_path = pf, convert_pixels = (\<lambda>m i. ()), resize_pixels = (\<lambda>sz i. ()),
      rembg = (\<lambda>i. Inr (i\<lparr>mode := ''RGBA''\<rparr>)),
      mkdir_ok = (\<lambda>fsys p. True), save_ok = (\<lambda>fsys p. True)\<rparr>"

definition picture :: "nat \<Rightarrow> nat \<Rightarrow> string \<Rightarrow> unit content" where
  "picture w h m = Picture \<lparr>dims = (w, h), mode = m, pixels = ()\<rparr>"

definition k9_a :: pystr where
  "k9_a = ustr ''./data/k9/a.jpg''"

definition k9_a_half :: pystr where
  "k9_a_half = ustr ''./data/k9/a_half.jpg''"

definition k9_files :: "unit filesystem" where
  "k9_files =
     \<lparr>files = [k9_a \<mapsto> picture 640 480 ''RGB'', k9_a_half \<mapsto> picture 100 50 ''RGB''],
      dirs = {ustr ''./data/k9''}\<rparr>"

definition avante_car :: pystr where
  "avante_car = ustr ''./avante n'' @ [BACKSLASH] @ ustr ''car.png''"

definition avante_bus :: pystr where
  "avante_bus = ustr ''./avante n'' @ [BACKSLASH] @ ustr ''bus.png''"

definition avante_files :: "unit filesystem" where
  "avante_files =
     \<lparr>files = [avante_car \<mapsto> picture 640 480 ''RGB'', avante_bus \<mapsto> picture 800 600 ''RGB''],
      dirs = {ustr ''./avante n''}\<rparr>"

text \<open>
  The directory as a POSIX \<open>glob\<close> reports it, where an earlier attempt has left the
  directories that the job derives for \<open>car.png\<close>.
\<close>

definition posix_car :: pystr where
  "posix_car = ustr ''./avante n/car.png''"

definition posix_files :: "unit filesystem" where
  "posix_files =
     \<lparr>files = [posix_car \<mapsto> picture 640 480 ''RGB''],
      dirs = {ustr ''./avante n'', ustr ''./avante n/ca_remove'',
              ustr ''./avante n/ca_remove/./avante n''}\<rparr>"

text \<open>
  The truncation as the specification words it: the title cut at the first occurrence
  of a separator character \<open>c\<close>.
\<close>

definition truncate_at_first :: "nat \<Rightarrow> pystr \<Rightarrow> pystr" where
  "truncate_at_first c title = takeWhile (\<lambda>x. x \<noteq> c) title"

section \<open>Properties of the training script\<close>

lemma lr_schedule_constructed:
  "PiecewiseConstantDecay [100, 200] [lr, 0.0005, 0.0001] = Inr lr_schedule"
  by (simp add: PiecewiseConstantDecay_def lr_schedule_def)

lemma decayed_lr_cases:
  "decayed_lr optimizer step =
     (if step \<le> 100 then 0.001 else if step \<le> 200 then 0.0005 else 0.0001)"
  by (simp add: decayed_lr_def optimizer_def lr_schedule_def schedule_call_def lr_def)

text \<open>
  C3, as stated: the rate is 0.001 for epochs in [0,100), 0.0005 for epochs in [100,200)
  and 0.0001 afterwards. This fails on the code. With one batch per epoch, epoch 100 is
  step 100 and still trains at 0.001; with 101 batches per epoch, epoch 1 starts at step
  101 and already trains at 0.0005.
\<close>

theorem C3_epoch_thresholds_counterexample:
  "lr_in_epoch 1 100 0 = 0.001 \<and> lr_in_epoch 1 100 0 \<noteq> 0.0005
   \<and> lr_in_epoch 101 1 0 = 0.0005 \<and> lr_in_epoch 101 1 0 \<noteq> 0.001"
  by (simp add: lr_in_epoch_def iterations_at_def decayed_lr_cases)

text \<open>
  C3, amended: the optimizer's learning rate is piecewise constant in the optimizer's step
  count (batch updates applied so far, \<open>e * steps_per_epoch + k\<close> for batch \<open>k\<close> of epoch
  \<open>e\<close>), with three levels: 0.001 while the step is at most 100, 0.0005 for steps in
  (100, 200], and 0.0001 for every later step.
\<close>

theorem C3_lr_piecewise_in_steps:
  "lr_in_epoch spe e k =
     (if e * spe + k \<le> 100 then 0.001
      else if e * spe + k \<le> 200 then 0.0005
      else 0.0001)"
  by (simp add: lr_in_epoch_def iterations_at_def decayed_lr_cases)

theorem C3_lr_piecewise_in_steps_witness:
  "lr_in_epoch 16 3 2 = 0.001 \<and> lr_in_epoch 16 7 0 = 0.0005 \<and> lr_in_epoch 16 12 9 = 0.0001"
  using C3_lr_piecewise_in_steps [of 16 3 2] C3_lr_piecewise_in_steps [of 16 7 0]
    C3_lr_piecewise_in_steps [of 16 12 9]
  by simp

subsection \<open>Checkpointing\<close>

lemma cp_greater: "monitor_op_of cp_callback = Greater"
  by (simp add: monitor_op_of_def cp_callback_def)

lemma cp_logs: "logs_of m (monitor cp_callback) = Some (val_accuracy m)"
  by (simp add: logs_of_def cp_callback_def)

lemma cp_epoch_end:
  "on_epoch_end cp_callback e (logs_of m) st =
     (if improves Greater (val_accuracy m) (best st)
      then \<lparr>best = Fin (val_accuracy m),
            writes = writes st @
              [\<lparr>target = ustr ''./model'', weights_only = False, at_epoch = e\<rparr>]\<rparr>
      else st)"
  by (simp add: on_epoch_end_def cp_logs cp_greater save_model_def) (simp add: cp_callback_def)

lemma fit_Suc:
  "fit cb (Suc n) h = on_epoch_end cb n (logs_of (h n)) (fit cb n h)"
  by (simp add: fit_def)

lemma fit_0: "fit cp_callback 0 h = \<lparr>best = NegInf, writes = []\<rparr>"
  by (simp add: fit_def on_train_begin_def cp_greater)

text \<open>
  The invariant of the fit loop: after \<open>n\<close> epochs \<open>best\<close> is the largest validation
  accuracy seen (minus infinity before the first epoch), and the writes are those of the
  record epochs, in order.
\<close>

lemma fit_invariant:
  "(let st = fit cp_callback n h in
     (if n = 0 then best st = NegInf
      else (\<exists>i<n. best st = Fin (val_accuracy (h i))
              \<and> (\<forall>j<n. val_accuracy (h j) \<le> val_accuracy (h i))))
     \<and> writes st =
         map (\<lambda>e. \<lparr>target = ustr ''./model'', weights_only = False, at_epoch = e\<rparr>)
           (filter (record_epoch h) [0..<n]))"
proof (induction n)
  case 0
  show ?case by (simp add: fit_0)
next
  case (Suc n)
  let ?st = "fit cp_callback n h"
  let ?v = "val_accuracy (h n)"
  have imp: "improves Greater ?v (best ?st) \<longleftrightarrow> record_epoch h n"
  proof (cases "n = 0")
    case True
    with Suc show ?thesis by (simp add: record_epoch_def Let_def)
  next
    case False
    with Suc obtain i where i: "i < n" "best ?st = Fin (val_accuracy (h i))"
      "\<forall>j<n. val_accuracy (h j) \<le> val_accuracy (h i)"
      by (auto simp: Let_def)
    show ?thesis unfolding record_epoch_def using i
      by (metis improves.simps(2) le_less_trans)
  qed
  show ?case
  proof (cases "record_epoch h n")
    case True
    then have "\<forall>j<Suc n. val_accuracy (h j) \<le> ?v"
      by (auto simp: record_epoch_def less_Suc_eq)
    with True imp Suc show ?thesis
      by (auto simp: fit_Suc cp_epoch_end Let_def)
  next
    case False
    then have n0: "n \<noteq> 0" by (auto simp: record_epoch_def)
    with Suc obtain i where i: "i < n" "best ?st = Fin (val_accuracy (h i))"
      "\<forall>j<n. val_accuracy (h j) \<le> val_accuracy (h i)"
      by (auto simp: Let_def)
    from False imp i have "?v \<le> val_accuracy (h i)" by simp
    with i have "\<forall>j<Suc n. val_accuracy (h j) \<le> val_accuracy (h i)"
      by (auto simp: less_Suc_eq)
    with False imp Suc i show ?thesis
      by (auto simp: fit_Suc cp_epoch_end Let_def intro!: exI[of _ i])
  qed
qed

lemma fit_writes:
  "writes (fit cp_callback n h) =
     map (\<lambda>e. \<lparr>target = ustr ''./model'', weights_only = False, at_epoch = e\<rparr>)
       (filter (record_epoch h) [0..<n])"
  using fit_invariant [of n h] by (simp add: Let_def)

lemma fabricated_run:
  "map at_epoch (writes (fit cp_callback 4 (fabricated [0.5, 0.6, 0.55, 0.7]))) = [0, 1, 3]"
  by (simp add: fit_def on_train_begin_def cp_greater cp_epoch_end fabricated_def upt_rec
      numeral_nat)

text \<open>
  C2, as stated: for the validation accuracies [0.5, 0.6, 0.55, 0.7] exactly two
  checkpoint writes occur. This fails on the code: \<open>best\<close> starts at minus infinity, so
  the first epoch (0.5) writes as well, and the run writes three times.
\<close>

theorem C2_two_writes_counterexample:
  "length (writes (fit cp_callback 4 (fabricated [0.5, 0.6, 0.55, 0.7]))) \<noteq> 2"
proof -
  have "length (map at_epoch (writes (fit cp_callback 4 (fabricated [0.5, 0.6, 0.55, 0.7]))))
          = 3"
    by (simp only: fabricated_run) simp
  then show ?thesis by simp
qed

text \<open>
  C2, amended: during a training run of any number of epochs, the checkpoint callback
  writes the full model to the fixed path \<open>./model\<close> after an epoch if and only if that
  epoch's validation accuracy strictly exceeds the validation accuracy of every prior
  epoch of the run (so the first epoch always writes, and ties do not overwrite); the
  writes happen in epoch order, at most once per epoch. In particular, for the
  validation accuracies [0.5, 0.6, 0.55, 0.7] exactly three writes occur, after the
  epochs with 0.5, 0.6 and 0.7.
\<close>

theorem C2_checkpoint_best_so_far:
  "map at_epoch (writes (fit cp_callback n h)) =
     filter (\<lambda>e. \<forall>j<e. val_accuracy (h j) < val_accuracy (h e)) [0..<n]
   \<and> (\<forall>w \<in> set (writes (fit cp_callback n h)).
         target w = ustr ''./model'' \<and> \<not> weights_only w)
   \<and> training_run h = fit cp_callback 100 h
   \<and> map at_epoch (writes (fit cp_callback 4 (fabricated [0.5, 0.6, 0.55, 0.7]))) = [0, 1, 3]"
proof -
  have eq: "(\<lambda>e. \<forall>j<e. val_accuracy (h j) < val_accuracy (h e)) = record_epoch h"
    by (simp add: record_epoch_def fun_eq_iff)
  have epochs: "map at_epoch (writes (fit cp_callback n h)) =
      filter (\<lambda>e. \<forall>j<e. val_accuracy (h j) < val_accuracy (h e)) [0..<n]"
    unfolding eq by (simp add: fit_writes comp_def)
  have full: "\<forall>w \<in> set (writes (fit cp_callback n h)).
      target w = ustr ''./model'' \<and> \<not> weights_only w"
    by (auto simp: fit_writes)
  have run: "training_run h = fit cp_callback 100 h"
    by (simp add: training_run_def)
  from epochs full run fabricated_run show ?thesis
    by blast
qed

theorem C2_checkpoint_best_so_far_witness:
  "map at_epoch (writes (fit cp_callback 2 (fabricated [0.5, 0.5]))) = [0]
   \<and> map target (writes (fit cp_callback 2 (fabricated [0.5, 0.5]))) = [ustr ''./model'']
   \<and> map weights_only (writes (fit cp_callback 2 (fabricated [0.5, 0.5]))) = [False]"
proof -
  let ?ws = "writes (fit cp_callback 2 (fabricated [0.5, 0.5]))"
  have "filter (\<lambda>e. \<forall>j<e. val_accuracy (fabricated [0.5, 0.5] j)
                        < val_accuracy (fabricated [0.5, 0.5] e)) [0..<2] = [0]"
    by (simp add: fabricated_def upt_rec numeral_nat)
  with C2_checkpoint_best_so_far [of 2 "fabricated [0.5, 0.5]"]
  have epochs: "map at_epoch ?ws = [0]"
    and full: "\<forall>w \<in> set ?ws. target w = ustr ''./model'' \<and> \<not> weights_only w"
    by simp_all
  from epochs obtain w where w: "?ws = [w]"
    by (cases ?ws) auto
  with full have "target w = ustr ''./model''" "\<not> weights_only w"
    by simp_all
  with epochs w show ?thesis by simp
qed

subsection \<open>The assembled model\<close>

text \<open>
  C4: for every handle and class count, \<open>get_model\<close> returns an uncompiled sequential
  stack in exactly this order: an input layer of shape 300 x 300 x 3, the pretrained
  extractor (trainable), a batch normalization, five dense layers of widths 1024, 512,
  256, 128, 64, each with the swish nonlinearity, exactly two dropout layers, one right
  after the dense layer of width 1024 and one right after the dense layer of width 512,
  and a final dense layer with \<open>num_classes\<close> units and softmax activation.
\<close>

theorem C4_get_model_stack:
  "layers (get_model handle num_classes) =
     [InputLayer [300, 300, 3], KerasLayer handle True, BatchNormalization 1,
      Dense 1024 ''swish'', Dropout 0.25, Dense 512 ''swish'', Dropout 0.25,
      Dense 256 ''swish'', Dense 128 ''swish'', Dense 64 ''swish'',
      Dense num_classes ''softmax'']
   \<and> compiled (get_model handle num_classes) = None
   \<and> List.map_filter dense_units (layers (get_model handle num_classes))
       = [1024, 512, 256, 128, 64, num_classes]
   \<and> List.map_filter dense_activation (layers (get_model handle num_classes))
       = [''swish'', ''swish'', ''swish'', ''swish'', ''swish'', ''softmax'']
   \<and> length (filter is_dropout (layers (get_model handle num_classes))) = 2
   \<and> before_dropout (layers (get_model handle num_classes))
       = [Dense 1024 ''swish'', Dense 512 ''swish'']
   \<and> last (layers (get_model handle num_classes)) = Dense num_classes ''softmax''"
  by (simp add: get_model_def List.map_filter_simps)
















subsection \<open>Augmentation of the feeds\<close>

lemma image_generator_Inr:
  assumes "image_generator sz r bs = Inr (train, val, test)"
  shows "image_data_generator val = image_data_generator train"
    and "image_data_generator test = library_defaults\<lparr>rescale := Some (1 / 255)\<rparr>"
    and "image_data_generator train =
       library_defaults
         \<lparr>rescale := Some (1 / 255), rotation_range := 20, zoom_range := 0.15,
          width_shift_range := 0.2, height_shift_range := 0.2, shear_range := 0.15,
          horizontal_flip := True, fill_mode := ''nearest'', validation_split := r\<rparr>"
    and "subset train = Some ''training''" and "subset val = Some ''validation''"
  using assms
  by (auto simp: image_generator_def new_ImageDataGenerator_def flow_from_directory_def
      library_defaults_def split: if_splits sum.splits)

lemma test_draws_identity:
  "may_draw (library_defaults\<lparr>rescale := Some (1 / 255)\<rparr>) p \<longleftrightarrow> p = identity_transform"
  by (cases p) (auto simp: may_draw_def library_defaults_def identity_transform_def)

lemma train_draws_flip:
  "may_draw
     (library_defaults
        \<lparr>rescale := Some (1 / 255), rotation_range := 20, zoom_range := 0.15,
         width_shift_range := 0.2, height_shift_range := 0.2, shear_range := 0.15,
         horizontal_flip := True, fill_mode := ''nearest'', validation_split := r\<rparr>)
     flip_only"
  by (simp add: may_draw_def library_defaults_def identity_transform_def flip_only_def)

lemma script_generators:
  "image_generator 300 0.2 16 = Inr (train_generator, val_generator, test_generator)"
  by (simp add: train_generator_def val_generator_def test_generator_def image_generator_def
      new_ImageDataGenerator_def library_defaults_def)

lemma val_generator_settings:
  "image_data_generator val_generator =
     library_defaults
       \<lparr>rescale := Some (1 / 255), rotation_range := 20, zoom_range := 0.15,
        width_shift_range := 0.2, height_shift_range := 0.2, shear_range := 0.15,
        horizontal_flip := True, fill_mode := ''nearest'', validation_split := 0.2\<rparr>"
  using image_generator_Inr(1,3) [OF script_generators] by simp

text \<open>
  C1, as stated: no augmentation transform is applied to an image yielded by the
  validation feed. This fails on the code: the validation feed is an iterator of
  \<open>train_datagen\<close>, for which a horizontal flip can be drawn, and the one-row image with
  pixels 0 and 255 is then yielded flipped, as 1 and 0, where the rescaled source is 0
  and 1.
\<close>

theorem C1_validation_augmented_counterexample:
  "may_draw (image_data_generator val_generator) flip_only
   \<and> flip_only \<noteq> identity_transform
   \<and> yielded row_ops val_generator flip_only [[0, 255]] = [[1, 0]]
   \<and> scale_by row_ops (1 / 255) [[0, 255]] = [[0, 1]]
   \<and> yielded row_ops val_generator flip_only [[0, 255]]
       \<noteq> scale_by row_ops (1 / 255) [[0, 255]]"
  unfolding val_generator_settings yielded_def
  by (simp add: may_draw_def standardize_def apply_transform_def library_defaults_def
      row_ops_def flip_only_def identity_transform_def)

text \<open>
  C1, amended: for every image yielded by the test feed built by \<open>image_generator\<close>, no
  augmentation transform (rotation, zoom, shift, shear, flip) is applied: the only
  transform its generator can draw is the neutral one, so apart from the fixed 1/255
  rescale and the resize the yielded pixels equal the stored source image, identically
  across repeated reads. The validation feed is an iterator of the same generator as the
  training feed and differs from it only in the subset; the augmentation transforms are
  drawn for the training feed and for the validation feed alike.
\<close>

theorem C1_test_feed_not_augmented:
  assumes "image_generator image_size validation_rate batch_sz = Inr (train, val, test)"
    and "may_draw (image_data_generator test) p"
    and "may_draw (image_data_generator test) p'"
  shows "p = identity_transform
    \<and> yielded ops test p x = scale_by ops (1 / 255) x
    \<and> yielded ops test p' x = yielded ops test p x
    \<and> image_data_generator val = image_data_generator train
    \<and> subset train = Some ''training'' \<and> subset val = Some ''validation''
    \<and> may_draw (image_data_generator train) flip_only
    \<and> may_draw (image_data_generator val) flip_only"
proof -
  note g = image_generator_Inr [OF assms(1)]
  from assms(2,3) have p: "p = identity_transform" and p': "p' = identity_transform"
    by (simp_all add: g(2) test_draws_identity)
  have y: "yielded ops test identity_transform x = scale_by ops (1 / 255) x"
    by (simp add: yielded_def g(2) standardize_def apply_transform_def library_defaults_def)
  have flip: "may_draw (image_data_generator train) flip_only"
    by (simp only: g(3) train_draws_flip)
  from p p' y flip g(1,4,5) show ?thesis by simp
qed

theorem C1_test_feed_not_augmented_witness:
  "image_generator 300 0.2 16 = Inr (train_generator, val_generator, test_generator)
   \<and> may_draw (image_data_generator test_generator) identity_transform
   \<and> yielded row_ops test_generator identity_transform [[0, 255]]
       = scale_by row_ops (1 / 255) [[0, 255]]
   \<and> image_data_generator val_generator = image_data_generator train_generator
   \<and> may_draw (image_data_generator val_generator) flip_only"
proof -
  have d: "may_draw (image_data_generator test_generator) identity_transform"
    by (simp add: image_generator_Inr(2) [OF script_generators] test_draws_identity)
  from C1_test_feed_not_augmented [OF script_generators d d, of row_ops "[[0, 255]]"]
    script_generators d
  show ?thesis by blast
qed

section \<open>Properties of the batch scripts\<close>

subsection \<open>Strings and paths\<close>

lemma py_find_absent: "c \<notin> set s \<Longrightarrow> py_find s c = - 1"
  by (induction s) (auto simp: Let_def)

lemma py_find_present:
  "c \<in> set s \<Longrightarrow> py_find s c = int (length (takeWhile (\<lambda>x. x \<noteq> c) s))"
proof (induction s)
  case Nil
  then show ?case by simp
next
  case (Cons x xs)
  show ?case
  proof (cases "x = c")
    case True
    then show ?thesis by simp
  next
    case False
    with Cons.prems have "c \<in> set xs" by simp
    with Cons.IH False show ?thesis by (simp add: Let_def)
  qed
qed

lemma slice_to_minus_one: "slice_to s (- 1) = butlast s"
  by (simp add: slice_to_def butlast_conv_take nat_diff_distrib')

lemma truncate_title_absent:
  "BACKSLASH \<notin> set title \<Longrightarrow> truncate_title title = butlast title"
  by (simp add: truncate_title_def py_find_absent slice_to_minus_one)

lemma truncate_title_present:
  "BACKSLASH \<in> set title \<Longrightarrow>
     truncate_title title = takeWhile (\<lambda>c. c \<noteq> BACKSLASH) title"
  by (simp add: truncate_title_def py_find_present slice_to_def takeWhile_eq_take [symmetric])

lemma splitext_append: "fst (splitext pf p) @ snd (splitext pf p) = p"
  by (simp add: splitext_def Let_def slice_to_def slice_from_def)

lemma py_find_range: "- 1 \<le> py_find s c \<and> py_find s c < int (length s)"
  by (induction s) (auto simp: Let_def)

lemma py_rfind_range: "- 1 \<le> py_rfind s c \<and> py_rfind s c < int (length s)"
  using py_find_range [of "rev s" c] by (auto simp: py_rfind_def Let_def)

lemma py_rfind_after: "c \<notin> set (drop (nat (py_rfind s c + 1)) s)"
proof (cases "c \<in> set s")
  case False
  then show ?thesis by (auto dest: in_set_dropD)
next
  case True
  let ?tw = "takeWhile (\<lambda>x. x \<noteq> c) (rev s)"
  from True have f: "py_find (rev s) c = int (length ?tw)"
    by (simp add: py_find_present)
  have "length ?tw \<noteq> length (rev s)"
  proof
    assume "length ?tw = length (rev s)"
    then have "take (length ?tw) (rev s) = rev s" by simp
    then have "?tw = rev s" by (simp add: takeWhile_eq_take [symmetric])
    with True show False by (auto simp: takeWhile_eq_all_conv)
  qed
  with length_takeWhile_le [of "\<lambda>x. x \<noteq> c" "rev s"] have le: "length ?tw < length s"
    by simp
  then have "nat (py_rfind s c + 1) = length s - length ?tw"
    by (simp add: py_rfind_def f Let_def)
  moreover have "drop (length s - length ?tw) s = rev (take (length ?tw) (rev s))"
    by (simp add: rev_take)
  moreover have "take (length ?tw) (rev s) = ?tw"
    by (simp add: takeWhile_eq_take [symmetric])
  moreover have "c \<notin> set ?tw"
    by (auto dest: set_takeWhileD)
  ultimately show ?thesis by simp
qed

lemma drop_no_later:
  assumes "c \<notin> set (drop m s)" and "m \<le> n"
  shows "c \<notin> set (drop n s)"
proof -
  from assms(2) have "drop n s = drop (n - m) (drop m s)" by simp
  with assms(1) show ?thesis by (metis in_set_dropD)
qed

lemma ext_no_char:
  assumes "py_rfind p c < py_rfind p DOT"
  shows "c \<notin> set (slice_from p (py_rfind p DOT))"
proof -
  from py_rfind_range [of p c] assms
  have "0 \<le> py_rfind p DOT" and "nat (py_rfind p c + 1) \<le> nat (py_rfind p DOT)"
    by simp_all
  with drop_no_later [OF py_rfind_after [of c p]] show ?thesis
    by (simp add: slice_from_def)
qed

lemma splitext_ext_no_sep:
  "sep pf \<notin> set (snd (splitext pf p)) \<and> SLASH \<notin> set (snd (splitext pf p))"
proof (cases pf)
  case Posix
  show ?thesis
    using ext_no_char [of p SLASH]
    by (simp add: Posix splitext_def Let_def)
next
  case Windows
  show ?thesis
    using ext_no_char [of p SLASH] ext_no_char [of p BACKSLASH]
    by (simp add: Windows splitext_def Let_def)
qed

lemmas str_defs = ustr_def SLASH_def DOT_def BACKSLASH_def

lemmas path_defs = splitext_def py_rfind_def slice_to_def slice_from_def truncate_title_def

subsection \<open>One step and the whole loop of the resize job\<close>

lemma resize_body_None:
  assumes "resize_body L fsys f = (None, fs')"
  shows "\<exists>opened. files fsys f = Some (Picture opened)
     \<and> save_ok L fsys (half_path (os_path L) f)
     \<and> fs' = fsys\<lparr>files := (files fsys)(half_path (os_path L) f \<mapsto>
          Picture (resize L (256, 256) (convert L ''RGB'' opened)))\<rparr>"
  using assms
  by (auto simp: resize_body_def Image_open_def save_def half_path_def Let_def
      split: option.splits content.splits sum.splits prod.splits if_splits)

lemma resize_body_Some:
  "resize_body L fsys f = (Some e, fs') \<Longrightarrow> fs' = fsys"
  by (auto simp: resize_body_def Let_def split: sum.splits prod.splits)

lemma resize_body_frame:
  assumes "resize_body L fsys f = (r, fs')"
  shows "dirs fs' = dirs fsys"
    and "q \<noteq> half_path (os_path L) f \<Longrightarrow> files fs' q = files fsys q"
    and "files fsys q \<noteq> None \<Longrightarrow> files fs' q \<noteq> None"
proof -
  consider e where "r = Some e" | "r = None" by (cases r) auto
  then have "dirs fs' = dirs fsys
      \<and> (q \<noteq> half_path (os_path L) f \<longrightarrow> files fs' q = files fsys q)
      \<and> (files fsys q \<noteq> None \<longrightarrow> files fs' q \<noteq> None)"
  proof cases
    case 1
    with assms have "fs' = fsys" by (simp add: resize_body_Some)
    then show ?thesis by simp
  next
    case 2
    with assms obtain opened where "fs' = fsys\<lparr>files := (files fsys)(half_path (os_path L) f \<mapsto>
          Picture (resize L (256, 256) (convert L ''RGB'' opened)))\<rparr>"
      using resize_body_None by blast
    then show ?thesis by simp
  qed
  then show "dirs fs' = dirs fsys"
    and "q \<noteq> half_path (os_path L) f \<Longrightarrow> files fs' q = files fsys q"
    and "files fsys q \<noteq> None \<Longrightarrow> files fs' q \<noteq> None"
    by blast+
qed

lemma resize_loop_frame:
  assumes "for_each (resize_body L) fsys paths = (r, fs')"
  shows "dirs fs' = dirs fsys
     \<and> (q \<notin> half_path (os_path L) ` set paths \<longrightarrow> files fs' q = files fsys q)
     \<and> (files fsys q \<noteq> None \<longrightarrow> files fs' q \<noteq> None)"
  using assms
proof (induction paths arbitrary: fsys)
  case Nil
  then show ?case by simp
next
  case (Cons f rest)
  obtain r1 fs1 where b: "resize_body L fsys f = (r1, fs1)" by (cases "resize_body L fsys f")
  note fr = resize_body_frame [OF b]
  show ?case
  proof (cases r1)
    case None
    with Cons.prems b have "for_each (resize_body L) fs1 rest = (r, fs')" by simp
    from Cons.IH [OF this] fr show ?thesis by auto
  next
    case (Some e)
    with Cons.prems b have "fs' = fs1" by simp
    with fr show ?thesis by auto
  qed
qed

lemma resize_step_resized:
  assumes "resize_body L fsys f = (None, fs')"
  shows "resized_picture fs' (half_path (os_path L) f)"
    and "resized_picture fsys p \<Longrightarrow> resized_picture fs' p"
    and "(\<exists>i. files fsys p = Some (Picture i)) \<Longrightarrow> (\<exists>i. files fs' p = Some (Picture i))"
  using resize_body_None [OF assms]
  by (auto simp: resized_picture_def resize_def convert_def)

lemma resize_loop_keeps:
  assumes "for_each (resize_body L) fsys paths = (None, fs')"
    and "resized_picture fsys p"
  shows "resized_picture fs' p"
  using assms
proof (induction paths arbitrary: fsys)
  case Nil
  then show ?case by simp
next
  case (Cons g rest)
  obtain r1 fs1 where b: "resize_body L fsys g = (r1, fs1)" by (cases "resize_body L fsys g")
  with Cons.prems have r1: "r1 = None" and rest: "for_each (resize_body L) fs1 rest = (None, fs')"
    by (auto split: option.splits)
  from Cons.IH [OF rest] resize_step_resized(2) [OF b [unfolded r1]] Cons.prems(2)
  show ?case by blast
qed

lemma resize_loop_resized:
  assumes "for_each (resize_body L) fsys paths = (None, fs')"
    and "f \<in> set paths"
  shows "resized_picture fs' (half_path (os_path L) f)"
  using assms
proof (induction paths arbitrary: fsys)
  case Nil
  then show ?case by simp
next
  case (Cons g rest)
  obtain r1 fs1 where b: "resize_body L fsys g = (r1, fs1)" by (cases "resize_body L fsys g")
  with Cons.prems have r1: "r1 = None" and rest: "for_each (resize_body L) fs1 rest = (None, fs')"
    by (auto split: option.splits)
  show ?case
  proof (cases "f = g")
    case True
    with resize_step_resized(1) [OF b [unfolded r1]] resize_loop_keeps [OF rest]
    show ?thesis by blast
  next
    case False
    with Cons.prems(2) have "f \<in> set rest" by simp
    from Cons.IH [OF rest this] show ?thesis .
  qed
qed

lemma resize_body_succeeds:
  assumes "files fsys g = Some (Picture i)" and "\<forall>fsys p. save_ok L fsys p"
  shows "fst (resize_body L fsys g) = None"
  using assms
  by (simp add: resize_body_def Image_open_def save_def Let_def split: prod.splits)

lemma resize_loop_succeeds:
  assumes "\<forall>p \<in> set paths. \<exists>i. files fsys p = Some (Picture i)"
    and "\<forall>fsys p. save_ok L fsys p"
  shows "fst (for_each (resize_body L) fsys paths) = None"
  using assms(1)
proof (induction paths arbitrary: fsys)
  case Nil
  then show ?case by simp
next
  case (Cons g rest)
  from Cons.prems obtain i where i: "files fsys g = Some (Picture i)" by auto
  from resize_body_succeeds [OF i assms(2)]
  obtain fs1 where b: "resize_body L fsys g = (None, fs1)"
    by (cases "resize_body L fsys g") auto
  from Cons.prems resize_step_resized(3) [OF b]
  have "\<forall>p \<in> set rest. \<exists>i. files fs1 p = Some (Picture i)" by auto
  from Cons.IH [OF this] b show ?case by simp
qed

subsection \<open>One step and the whole loop of the background-removal job\<close>

lemma remove_body_None:
  assumes "remove_body L s f = (None, s')"
  shows "\<exists>opened out. files (fs s) f = Some (Picture opened)
     \<and> rembg L (convert L ''RGB'' opened) = Inr out
     \<and> count s' = count s + 1
     \<and> files (fs s') = (files (fs s))(remove_target (os_path L) f (count s) \<mapsto> Picture out)
     \<and> dirs (fs s') =
         (if os_path_exists (fs s) (remove_dir (os_path L) f) then dirs (fs s)
          else insert (remove_dir (os_path L) f) (dirs (fs s)))"
  using assms
  by (auto simp: remove_body_def Image_open_def save_def os_mkdir_def remove_target_def
      remove_dir_def Let_def ustr_def
      split: option.splits content.splits sum.splits prod.splits if_splits)

lemma remove_body_Some:
  assumes "remove_body L s f = (Some e, s')"
  shows "count s' = count s \<and> files (fs s') = files (fs s)
     \<and> (dirs (fs s') = dirs (fs s)
         \<or> dirs (fs s') = insert (remove_dir (os_path L) f) (dirs (fs s)))"
  using assms
  by (auto simp: remove_body_def Image_open_def save_def os_mkdir_def remove_dir_def Let_def
      split: option.splits content.splits sum.splits prod.splits if_splits)


lemma remove_loop_counter:
  assumes "for_each (remove_body L) s paths = (r, s')"
  shows "count s \<le> count s' \<and> count s' - count s \<le> length paths
    \<and> (r = None \<longrightarrow> count s' = count s + length paths)
    \<and> (\<forall>k < count s' - count s. \<exists>sk sk'.
          for_each (remove_body L) s (take k paths) = (None, sk) \<and> count sk = count s + k
          \<and> remove_body L sk (paths ! k) = (None, sk'))
    \<and> (r \<noteq> None \<longrightarrow> count s' - count s < length paths
          \<and> (\<exists>sk. for_each (remove_body L) s (take (count s' - count s) paths) = (None, sk)
                \<and> fst (remove_body L sk (paths ! (count s' - count s))) = r))"
  using assms
proof (induction paths arbitrary: s)
  case Nil
  then show ?case by simp
next
  case (Cons f rest)
  obtain r1 s1 where b: "remove_body L s f = (r1, s1)" by (cases "remove_body L s f")
  show ?case
  proof (cases r1)
    case (Some e)
    with Cons.prems b have r: "r = Some e" and s': "s' = s1" by simp_all
    from remove_body_Some [OF b [unfolded Some]] have c: "count s1 = count s" by simp
    from b Some r s' c show ?thesis by simp
  next
    case None
    with Cons.prems b have rest: "for_each (remove_body L) s1 rest = (r, s')" by simp
    from remove_body_None [OF b [unfolded None]] have c: "count s1 = count s + 1" by auto
    note IH = Cons.IH [OF rest]
    define d where "d = count s' - count s1"
    from IH c have diff: "count s' - count s = Suc d" and le: "count s \<le> count s'"
      by (auto simp: d_def)
    have part1: "count s' - count s \<le> length (f # rest)"
      using IH diff by (simp add: d_def)
    have part2: "r = None \<longrightarrow> count s' = count s + length (f # rest)"
      using IH c by simp
    have part3: "\<exists>sk sk'. for_each (remove_body L) s (take k (f # rest)) = (None, sk)
          \<and> count sk = count s + k \<and> remove_body L sk ((f # rest) ! k) = (None, sk')"
      if k: "k < Suc d" for k
    proof (cases k)
      case 0
      with b None show ?thesis by simp
    next
      case (Suc j)
      with k have "j < count s' - count s1" by (simp add: d_def)
      with IH obtain sj sj' where
        "for_each (remove_body L) s1 (take j rest) = (None, sj)" "count sj = count s1 + j"
        "remove_body L sj (rest ! j) = (None, sj')"
        by blast
      with Suc b None c show ?thesis by simp
    qed
    have part4: "count s' - count s < length (f # rest)
          \<and> (\<exists>sk. for_each (remove_body L) s (take (count s' - count s) (f # rest)) = (None, sk)
                \<and> fst (remove_body L sk ((f # rest) ! (count s' - count s))) = r)"
      if "r \<noteq> None"
    proof -
      from IH that obtain sk where "d < length rest"
        "for_each (remove_body L) s1 (take d rest) = (None, sk)"
        "fst (remove_body L sk (rest ! d)) = r"
        unfolding d_def by blast
      with diff b None show ?thesis by simp
    qed
    from le part1 part2 part3 part4 diff show ?thesis by simp
  qed
qed

lemma remove_body_frame:
  assumes "remove_body L s f = (r, s')"
  shows "((\<forall>k. q \<noteq> remove_target (os_path L) f k) \<longrightarrow> files (fs s') q = files (fs s) q)
     \<and> (files (fs s) q \<noteq> None \<longrightarrow> files (fs s') q \<noteq> None)
     \<and> dirs (fs s) \<subseteq> dirs (fs s')"
proof (cases r)
  case None
  with assms have "remove_body L s f = (None, s')" by simp
  from remove_body_None [OF this] obtain out where
    f: "files (fs s') = (files (fs s))(remove_target (os_path L) f (count s) \<mapsto> Picture out)"
    and d: "dirs (fs s') =
         (if os_path_exists (fs s) (remove_dir (os_path L) f) then dirs (fs s)
          else insert (remove_dir (os_path L) f) (dirs (fs s)))"
    by blast
  have "dirs (fs s) \<subseteq> dirs (fs s')"
    unfolding d by (simp add: subset_insertI)
  moreover have "files (fs s) q \<noteq> None \<longrightarrow> files (fs s') q \<noteq> None"
    unfolding f by simp
  moreover have "(\<forall>k. q \<noteq> remove_target (os_path L) f k) \<longrightarrow> files (fs s') q = files (fs s) q"
    unfolding f by simp
  ultimately show ?thesis by blast
next
  case (Some e)
  with assms have "remove_body L s f = (Some e, s')" by simp
  from remove_body_Some [OF this] have
    f: "files (fs s') = files (fs s)"
    and d: "dirs (fs s') = dirs (fs s)
         \<or> dirs (fs s') = insert (remove_dir (os_path L) f) (dirs (fs s))"
    by blast+
  from d have "dirs (fs s) \<subseteq> dirs (fs s')"
    by (auto simp: subset_insertI)
  with f show ?thesis by simp
qed

lemma remove_loop_frame:
  assumes "for_each (remove_body L) s paths = (r, s')"
  shows "((\<forall>f \<in> set paths. \<forall>k. q \<noteq> remove_target (os_path L) f k)
            \<longrightarrow> files (fs s') q = files (fs s) q)
     \<and> (files (fs s) q \<noteq> None \<longrightarrow> files (fs s') q \<noteq> None)
     \<and> dirs (fs s) \<subseteq> dirs (fs s')"
  using assms
proof (induction paths arbitrary: s)
  case Nil
  then show ?case by simp
next
  case (Cons f rest)
  obtain r1 s1 where b: "remove_body L s f = (r1, s1)" by (cases "remove_body L s f")
  note fr = remove_body_frame [OF b, of q]
  show ?case
  proof (cases r1)
    case None
    with Cons.prems b have "for_each (remove_body L) s1 rest = (r, s')" by simp
    from Cons.IH [OF this] fr show ?thesis by auto
  next
    case (Some e)
    with Cons.prems b have "s' = s1" by simp
    with fr show ?thesis by auto
  qed
qed

lemma remove_target_not_matched:
  assumes "95 \<notin> set dir"
  shows "\<not> glob_match pf dir ext (remove_target pf f k)"
proof
  assume m: "glob_match pf dir ext (remove_target pf f k)"
  define T where "T = truncate_title (fst (splitext pf f))"
  define rest where "rest = ustr ''remove/'' @ T @ ustr ''_remove'' @ str_nat k @ snd (splitext pf f)"
  have tgt: "remove_target pf f k = T @ 95 # rest"
    by (simp add: remove_target_def T_def rest_def ustr_def)
  have slash: "SLASH \<in> set rest" by (simp add: rest_def ustr_def SLASH_def)
  from m have pre: "take (length dir + 1) (T @ 95 # rest) = dir @ [sep pf]"
    and name: "SLASH \<notin> set (drop (length dir + 1) (T @ 95 # rest))"
    by (simp_all add: glob_match_def tgt Let_def)
  have sep: "sep pf \<noteq> 95" by (cases pf) (simp_all add: SLASH_def BACKSLASH_def)
  show False
  proof (cases "length T < length dir + 1")
    case True
    then have "take (length dir + 1) (T @ 95 # rest) ! length T = 95"
      by (simp add: nth_append)
    with pre have "(dir @ [sep pf]) ! length T = 95" by simp
    moreover from True have "(dir @ [sep pf]) ! length T \<in> set (dir @ [sep pf])"
      by (intro nth_mem) simp
    ultimately show False using assms sep by auto
  next
    case False
    then have "drop (length dir + 1) (T @ 95 # rest) = drop (length dir + 1) T @ 95 # rest"
      by simp
    with name slash show False by simp
  qed
qed

subsection \<open>Runs on the example directories\<close>

lemma resize_body_eval:
  assumes "files fsys f = Some (Picture i)" and "save_ok L fsys (half_path (os_path L) f)"
  shows "resize_body L fsys f =
     (None, fsys\<lparr>files := (files fsys)(half_path (os_path L) f \<mapsto>
        Picture (resize L (256, 256) (convert L ''RGB'' i)))\<rparr>)"
  using assms
  by (simp add: resize_body_def Image_open_def save_def half_path_def Let_def case_prod_beta)

lemma remove_body_eval:
  assumes "files (fs s) f = Some (Picture i)"
    and "rembg L (convert L ''RGB'' i) = Inr out"
    and "\<forall>fsys p. mkdir_ok L fsys p" and "\<forall>fsys p. save_ok L fsys p"
  shows "remove_body L s f =
     (None,
      \<lparr>fs = \<lparr>files = (files (fs s))(remove_target (os_path L) f (count s) \<mapsto> Picture out),
             dirs = (if os_path_exists (fs s) (remove_dir (os_path L) f) then dirs (fs s)
                     else insert (remove_dir (os_path L) f) (dirs (fs s)))\<rparr>,
       count = count s + 1\<rparr>)"
  using assms
  by (simp add: remove_body_def Image_open_def save_def os_mkdir_def remove_target_def
      remove_dir_def Let_def ustr_def case_prod_beta)

lemma k9_half: "half_path Posix k9_a = k9_a_half"
  by (simp add: half_path_def k9_a_def k9_a_half_def path_defs str_defs)

lemma k9_half_half: "half_path Posix k9_a_half = ustr ''./data/k9/a_half_half.jpg''"
  by (simp add: half_path_def k9_a_def k9_a_half_def path_defs str_defs)

lemma k9_ne: "k9_a \<noteq> k9_a_half" "k9_a_half \<noteq> ustr ''./data/k9/a_half_half.jpg''" "k9_a \<noteq> ustr ''./data/k9/a_half_half.jpg''"
  by (simp_all add: k9_a_def k9_a_half_def str_defs)

lemma plain_simps:
  "os_path (plain_library pf) = pf" "save_ok (plain_library pf) fsys p" "mkdir_ok (plain_library pf) fsys p"
  "resize (plain_library pf) sz \<lparr>dims = d, mode = m, pixels = ()\<rparr> = \<lparr>dims = sz, mode = m, pixels = ()\<rparr>"
  "convert (plain_library pf) m' \<lparr>dims = d, mode = m, pixels = ()\<rparr> = \<lparr>dims = d, mode = m', pixels = ()\<rparr>"
  "rembg (plain_library pf) \<lparr>dims = d, mode = m, pixels = ()\<rparr> = Inr \<lparr>dims = d, mode = ''RGBA'', pixels = ()\<rparr>"
  by (simp_all add: plain_library_def resize_def convert_def)

lemma k9_step1:
  "resize_body (plain_library Posix) k9_files k9_a =
     (None, k9_files\<lparr>files := (files k9_files)(k9_a_half \<mapsto> picture 256 256 ''RGB'')\<rparr>)"
proof -
  have "files k9_files k9_a = Some (Picture \<lparr>dims = (640, 480), mode = ''RGB'', pixels = ()\<rparr>)"
    using k9_ne by (simp add: k9_files_def picture_def)
  from resize_body_eval [OF this, of "plain_library Posix"] show ?thesis
    by (simp add: plain_simps k9_half picture_def)
qed

lemma k9_run:
  "fst (resize_job (plain_library Posix) k9_files [k9_a, k9_a_half]) = None
   \<and> files (snd (resize_job (plain_library Posix) k9_files [k9_a, k9_a_half])) k9_a_half
       = Some (picture 256 256 ''RGB'')"
proof -
  let ?fs1 = "k9_files\<lparr>files := (files k9_files)(k9_a_half \<mapsto> picture 256 256 ''RGB'')\<rparr>"
  have "files ?fs1 k9_a_half = Some (Picture \<lparr>dims = (256, 256), mode = ''RGB'', pixels = ()\<rparr>)"
    by (simp add: picture_def)
  from resize_body_eval [OF this, of "plain_library Posix"]
  have "resize_body (plain_library Posix) ?fs1 k9_a_half =
      (None, ?fs1\<lparr>files := (files ?fs1)(ustr ''./data/k9/a_half_half.jpg'' \<mapsto> picture 256 256 ''RGB'')\<rparr>)"
    by (simp add: plain_simps k9_half_half picture_def)
  with k9_step1 k9_ne show ?thesis
    by (simp add: resize_job_def)
qed

lemma k9_glob: "glob_match Posix (ustr ''./data/k9'') (ustr ''.jpg'') k9_a"
   "glob_match Posix (ustr ''./data/k9'') (ustr ''.jpg'') k9_a_half"
  by (simp_all add: glob_match_def k9_a_def k9_a_half_def str_defs)

lemma car_split: "splitext Windows avante_car = (ustr ''./avante n'' @ [BACKSLASH] @ ustr ''car'', ustr ''.png'')"
  by (simp add: avante_car_def path_defs str_defs)

lemma car_dir: "remove_dir Windows avante_car = ustr ''./avante n_remove''"
  by (simp add: remove_dir_def car_split) (simp add: path_defs str_defs)

lemma car_target: "remove_target Windows avante_car 0 = ustr ''./avante n_remove/./avante n_remove0.png''"
  by (simp add: remove_target_def car_split) (simp add: path_defs str_defs str_nat.simps)

lemma bus_target: "remove_target Windows avante_bus (Suc 0) = ustr ''./avante n_remove/./avante n_remove1.png''"
  by (simp add: remove_target_def avante_bus_def path_defs str_defs str_nat.simps)

lemma posix_dir: "remove_dir Posix (ustr ''./avante n/car.png'') = ustr ''./avante n/ca_remove''"
  by (simp add: remove_dir_def path_defs str_defs)

lemma avante_ne: "avante_car \<noteq> avante_bus" "avante_bus \<noteq> ustr ''./avante n_remove/./avante n_remove0.png''"
  "avante_car \<noteq> ustr ''./avante n_remove/./avante n_remove0.png''"
  by (simp_all add: avante_car_def avante_bus_def str_defs)

lemma car_step:
  "remove_body (plain_library Windows) \<lparr>fs = avante_files, count = 0\<rparr> avante_car =
    (None, \<lparr>fs = \<lparr>files = (files avante_files)(ustr ''./avante n_remove/./avante n_remove0.png'' \<mapsto> picture 640 480 ''RGBA''),
                  dirs = {ustr ''./avante n_remove'', ustr ''./avante n''}\<rparr>, count = Suc 0\<rparr>)"
proof -
  have "files (fs \<lparr>fs = avante_files, count = 0\<rparr>) avante_car = Some (Picture \<lparr>dims = (640, 480), mode = ''RGB'', pixels = ()\<rparr>)"
    using avante_ne by (simp add: avante_files_def picture_def)
  from remove_body_eval [OF this, of "plain_library Windows" "\<lparr>dims = (640, 480), mode = ''RGBA'', pixels = ()\<rparr>"]
  show ?thesis
    by (simp add: plain_simps car_dir car_target picture_def os_path_exists_def)
      (simp add: avante_files_def avante_car_def avante_bus_def str_defs)
qed

lemma bus_step:
  "remove_body (plain_library Windows)
     \<lparr>fs = \<lparr>files = (files avante_files)(ustr ''./avante n_remove/./avante n_remove0.png''
                       \<mapsto> picture 640 480 ''RGBA''),
            dirs = {ustr ''./avante n_remove'', ustr ''./avante n''}\<rparr>, count = Suc 0\<rparr>
     avante_bus =
   (None,
    \<lparr>fs = \<lparr>files = (files avante_files)
                      (ustr ''./avante n_remove/./avante n_remove0.png''
                         \<mapsto> picture 640 480 ''RGBA'',
                       ustr ''./avante n_remove/./avante n_remove1.png''
                         \<mapsto> picture 800 600 ''RGBA''),
           dirs = {ustr ''./avante n_remove'', ustr ''./avante n''}\<rparr>, count = 2\<rparr>)"
proof -
  let ?s = "\<lparr>fs = \<lparr>files = (files avante_files)(ustr ''./avante n_remove/./avante n_remove0.png''
                       \<mapsto> picture 640 480 ''RGBA''),
            dirs = {ustr ''./avante n_remove'', ustr ''./avante n''}\<rparr>, count = Suc 0\<rparr>"
  have d: "remove_dir Windows avante_bus = ustr ''./avante n_remove''"
    by (simp add: remove_dir_def avante_bus_def path_defs str_defs)
  have "files (fs ?s) avante_bus
      = Some (Picture \<lparr>dims = (800, 600), mode = ''RGB'', pixels = ()\<rparr>)"
    using avante_ne by (simp add: avante_files_def picture_def)
  from remove_body_eval [OF this, of "plain_library Windows"
      "\<lparr>dims = (800, 600), mode = ''RGBA'', pixels = ()\<rparr>"]
  show ?thesis
    by (simp add: plain_simps d bus_target picture_def os_path_exists_def)
qed

lemma avante_run:
  "remove_job (plain_library Windows) avante_files [avante_car, avante_bus] =
   (None,
    \<lparr>fs = \<lparr>files = (files avante_files)
                      (ustr ''./avante n_remove/./avante n_remove0.png''
                         \<mapsto> picture 640 480 ''RGBA'',
                       ustr ''./avante n_remove/./avante n_remove1.png''
                         \<mapsto> picture 800 600 ''RGBA''),
           dirs = {ustr ''./avante n_remove'', ustr ''./avante n''}\<rparr>, count = 2\<rparr>)"
  by (simp add: remove_job_def car_step bus_step)

subsection \<open>The resize job writes 256 x 256 pictures\<close>

text \<open>
  C5: for every file matched by the resize job, whatever the resolution and the aspect
  ratio of the image in it, the job writes an RGB picture of exactly 256 x 256 pixels
  to the sibling path that inserts \<open>_half\<close> between the extension-stripped file name
  and the original extension (the extension holds no separator, so the output lies in
  the directory of the source). A run that ends without an exception has done so for
  every file of the list, and the run does end without an exception when every matched
  file decodes and the operating system accepts the writes.
\<close>

theorem C5_resize_writes_256:
  assumes "f \<in> set paths"
  shows "(resize_job L fsys paths = (None, fs') \<longrightarrow>
            resized_picture fs' (half_path (os_path L) f))
    \<and> half_path (os_path L) f
        = fst (splitext (os_path L) f) @ ustr ''_half'' @ snd (splitext (os_path L) f)
    \<and> fst (splitext (os_path L) f) @ snd (splitext (os_path L) f) = f
    \<and> sep (os_path L) \<notin> set (snd (splitext (os_path L) f))
    \<and> SLASH \<notin> set (snd (splitext (os_path L) f))
    \<and> ((\<forall>p \<in> set paths. \<exists>i. files fsys p = Some (Picture i)) \<and> (\<forall>fsys p. save_ok L fsys p)
         \<longrightarrow> fst (resize_job L fsys paths) = None)"
proof -
  have "resize_job L fsys paths = (None, fs') \<longrightarrow> resized_picture fs' (half_path (os_path L) f)"
    using resize_loop_resized [of L fsys paths fs' f] assms by (simp add: resize_job_def)
  moreover have "(\<forall>p \<in> set paths. \<exists>i. files fsys p = Some (Picture i))
      \<and> (\<forall>fsys p. save_ok L fsys p) \<longrightarrow> fst (resize_job L fsys paths) = None"
    using resize_loop_succeeds [of paths fsys L] by (simp add: resize_job_def)
  ultimately show ?thesis
    by (simp add: half_path_def splitext_append splitext_ext_no_sep)
qed

theorem C5_resize_writes_256_witness:
  "k9_a \<in> set [k9_a, k9_a_half]
   \<and> fst (resize_job (plain_library Posix) k9_files [k9_a, k9_a_half]) = None
   \<and> resized_picture (snd (resize_job (plain_library Posix) k9_files [k9_a, k9_a_half]))
        (half_path Posix k9_a)
   \<and> half_path Posix k9_a = k9_a_half"
proof -
  let ?L = "plain_library Posix"
  let ?run = "resize_job ?L k9_files [k9_a, k9_a_half]"
  have mem: "k9_a \<in> set [k9_a, k9_a_half]" by simp
  have dec: "\<forall>p \<in> set [k9_a, k9_a_half]. \<exists>i. files k9_files p = Some (Picture i)"
    by (simp add: k9_files_def picture_def)
  have ok: "\<forall>fsys p. save_ok ?L fsys p" by (simp add: plain_simps)
  note inst = C5_resize_writes_256 [OF mem, of ?L k9_files "snd ?run"]
  from inst dec ok have fin: "fst ?run = None" by blast
  then have "?run = (None, snd ?run)" by (simp add: prod_eq_iff)
  with inst have "resized_picture (snd ?run) (half_path (os_path ?L) k9_a)" by blast
  with mem fin k9_half show ?thesis by (simp add: plain_simps)
qed

subsection \<open>Source files\<close>

text \<open>
  C8, as stated: neither job ever changes a source file. This fails on the code for the
  resize job. When the directory holds \<open>a.jpg\<close> and \<open>a_half.jpg\<close>, both are matched, and
  the output path of \<open>a.jpg\<close> is the source file \<open>a_half.jpg\<close>: after the run that file no
  longer holds its 100 x 50 picture but the resized 256 x 256 one.
\<close>

theorem C8_resize_overwrites_source_counterexample:
  "glob_match Posix (ustr ''./data/k9'') (ustr ''.jpg'') k9_a
   \<and> glob_match Posix (ustr ''./data/k9'') (ustr ''.jpg'') k9_a_half
   \<and> fst (resize_job (plain_library Posix) k9_files [k9_a, k9_a_half]) = None
   \<and> files k9_files k9_a_half = Some (picture 100 50 ''RGB'')
   \<and> files (snd (resize_job (plain_library Posix) k9_files [k9_a, k9_a_half])) k9_a_half
       = Some (picture 256 256 ''RGB'')
   \<and> files (snd (resize_job (plain_library Posix) k9_files [k9_a, k9_a_half])) k9_a_half
       \<noteq> files k9_files k9_a_half"
proof -
  have "files k9_files k9_a_half = Some (picture 100 50 ''RGB'')"
    by (simp add: k9_files_def)
  moreover have "picture 256 256 ''RGB'' \<noteq> picture 100 50 ''RGB''"
    by (simp add: picture_def)
  ultimately show ?thesis
    using k9_glob k9_run by simp
qed

text \<open>
  C8, amended: neither batch job deletes a file, and each job writes only to the output
  paths it derives from the matched files. The background-removal job never derives a
  path of the shape its glob matches, so the contents of every source file of that job
  are unchanged after the run. After a run of the resize job, the contents of a source
  file are unchanged provided the file's path is not the derived path
  \<open>title + '_half' + ext\<close> of a matched file.
\<close>

theorem C8_sources_kept:
  "(remove_job L fsys paths = (r, s') \<longrightarrow>
       (glob_match (os_path L) (ustr ''./avante n'') ext q \<longrightarrow> files (fs s') q = files fsys q)
     \<and> ((\<forall>f \<in> set paths. \<forall>k. q \<noteq> remove_target (os_path L) f k)
          \<longrightarrow> files (fs s') q = files fsys q)
     \<and> (files fsys q \<noteq> None \<longrightarrow> files (fs s') q \<noteq> None))
   \<and> (resize_job L fsys paths = (r', fs') \<longrightarrow>
       (q \<notin> half_path (os_path L) ` set paths \<longrightarrow> files fs' q = files fsys q)
     \<and> (files fsys q \<noteq> None \<longrightarrow> files fs' q \<noteq> None))"
proof -
  have dir: "95 \<notin> set (ustr ''./avante n'')" by (simp add: ustr_def)
  have nm: "glob_match (os_path L) (ustr ''./avante n'') ext q \<Longrightarrow>
      \<forall>f \<in> set paths. \<forall>k. q \<noteq> remove_target (os_path L) f k"
    using remove_target_not_matched [OF dir] by blast
  have rem: "((\<forall>f \<in> set paths. \<forall>k. q \<noteq> remove_target (os_path L) f k)
          \<longrightarrow> files (fs s') q = files fsys q)
     \<and> (files fsys q \<noteq> None \<longrightarrow> files (fs s') q \<noteq> None)"
    if "remove_job L fsys paths = (r, s')"
    using remove_loop_frame [of L "\<lparr>fs = fsys, count = 0\<rparr>" paths r s' q] that
    by (simp add: remove_job_def)
  have res: "(q \<notin> half_path (os_path L) ` set paths \<longrightarrow> files fs' q = files fsys q)
     \<and> (files fsys q \<noteq> None \<longrightarrow> files fs' q \<noteq> None)"
    if "resize_job L fsys paths = (r', fs')"
    using resize_loop_frame [of L fsys paths r' fs' q] that
    by (simp add: resize_job_def)
  from nm rem res show ?thesis by blast
qed

theorem C8_sources_kept_witness:
  "glob_match Windows (ustr ''./avante n'') (ustr ''.png'') avante_car
   \<and> files (fs (snd (remove_job (plain_library Windows) avante_files [avante_car, avante_bus])))
        avante_car = files avante_files avante_car
   \<and> k9_a \<notin> half_path Posix ` set [k9_a, k9_a_half]
   \<and> files (snd (resize_job (plain_library Posix) k9_files [k9_a, k9_a_half])) k9_a
       = files k9_files k9_a"
proof -
  let ?W = "plain_library Windows" and ?P = "plain_library Posix"
  have m: "glob_match (os_path ?W) (ustr ''./avante n'') (ustr ''.png'') avante_car"
    by (simp add: plain_simps glob_match_def avante_car_def str_defs lower_ascii_def)
  have n: "k9_a \<notin> half_path (os_path ?P) ` set [k9_a, k9_a_half]"
    using k9_ne by (simp add: plain_simps k9_half k9_half_half)
  have a: "remove_job ?W avante_files [avante_car, avante_bus]
      = (fst (remove_job ?W avante_files [avante_car, avante_bus]),
         snd (remove_job ?W avante_files [avante_car, avante_bus]))"
    by simp
  have b: "resize_job ?P k9_files [k9_a, k9_a_half]
      = (fst (resize_job ?P k9_files [k9_a, k9_a_half]),
         snd (resize_job ?P k9_files [k9_a, k9_a_half]))"
    by simp
  from C8_sources_kept [of ?W avante_files "[avante_car, avante_bus]" _ _ "ustr ''.png''"
      avante_car] a m
  have "files (fs (snd (remove_job ?W avante_files [avante_car, avante_bus]))) avante_car
      = files avante_files avante_car"
    by blast
  moreover
  from C8_sources_kept [of ?P k9_files "[k9_a, k9_a_half]" _ _ _ k9_a] b n
  have "files (snd (resize_job ?P k9_files [k9_a, k9_a_half])) k9_a = files k9_files k9_a"
    by blast
  ultimately show ?thesis using m n by (simp add: plain_simps)
qed

subsection \<open>Output directory and output name of the background-removal job\<close>

text \<open>
  C6, as stated: the output directory name is the title truncated at the first
  path-separator occurrence. This fails on the code for a path as a POSIX \<open>glob\<close>
  reports it, \<open>./avante n/car.png\<close>: its title holds no backslash, the code cuts off
  the last character and derives the directory \<open>./avante n/ca_remove\<close>, where the
  title cut at its first slash is \<open>.\<close> and the title cut at its first backslash is the
  whole title.
\<close>

theorem C6_first_separator_counterexample:
  "glob_match Posix (ustr ''./avante n'') (ustr ''.png'') (ustr ''./avante n/car.png'')
   \<and> fst (splitext Posix (ustr ''./avante n/car.png'')) = ustr ''./avante n/car''
   \<and> remove_dir Posix (ustr ''./avante n/car.png'') = ustr ''./avante n/ca_remove''
   \<and> truncate_at_first SLASH (ustr ''./avante n/car'') = ustr ''.''
   \<and> truncate_at_first BACKSLASH (ustr ''./avante n/car'') = ustr ''./avante n/car''
   \<and> truncate_title (ustr ''./avante n/car'') \<noteq> truncate_at_first SLASH (ustr ''./avante n/car'')
   \<and> truncate_title (ustr ''./avante n/car'')
       \<noteq> truncate_at_first BACKSLASH (ustr ''./avante n/car'')"
  by (simp add: glob_match_def remove_dir_def truncate_at_first_def path_defs str_defs)

text \<open>
  C6, amended: for every PNG file processed by the background-removal job whose
  extension-stripped title contains a backslash, the output directory name is derived
  by splitting off the extension, truncating the remaining title at the first backslash
  and appending \<open>_remove\<close>; that directory is created if absent (and left alone if
  present), and the result of the background removal is written, inside it, under a name
  combining the truncated title, the fixed suffix \<open>_remove\<close>, the current zero-based
  counter and the original extension.
\<close>

theorem C6_output_directory_and_name:
  assumes "remove_body L s f = (None, s')"
    and "BACKSLASH \<in> set (fst (splitext (os_path L) f))"
  shows "remove_dir (os_path L) f
       = truncate_at_first BACKSLASH (fst (splitext (os_path L) f)) @ ustr ''_remove''
    \<and> os_path_exists (fs s') (remove_dir (os_path L) f)
    \<and> dirs (fs s') =
        (if os_path_exists (fs s) (remove_dir (os_path L) f) then dirs (fs s)
         else insert (remove_dir (os_path L) f) (dirs (fs s)))
    \<and> (\<exists>opened out. files (fs s) f = Some (Picture opened)
          \<and> rembg L (convert L ''RGB'' opened) = Inr out
          \<and> files (fs s') (remove_target (os_path L) f (count s)) = Some (Picture out))
    \<and> remove_target (os_path L) f (count s)
       = remove_dir (os_path L) f @ ustr ''/''
         @ truncate_at_first BACKSLASH (fst (splitext (os_path L) f)) @ ustr ''_remove''
         @ str_nat (count s) @ snd (splitext (os_path L) f)
    \<and> fst (splitext (os_path L) f) @ snd (splitext (os_path L) f) = f"
proof -
  let ?D = "remove_dir (os_path L) f" and ?T = "remove_target (os_path L) f (count s)"
  have tr: "truncate_title (fst (splitext (os_path L) f))
      = truncate_at_first BACKSLASH (fst (splitext (os_path L) f))"
    using assms(2) by (simp add: truncate_title_present truncate_at_first_def)
  from remove_body_None [OF assms(1)] obtain opened out where
    o: "files (fs s) f = Some (Picture opened)" "rembg L (convert L ''RGB'' opened) = Inr out"
    and f: "files (fs s') = (files (fs s))(?T \<mapsto> Picture out)"
    and d: "dirs (fs s') = (if os_path_exists (fs s) ?D then dirs (fs s)
          else insert ?D (dirs (fs s)))"
    by blast
  have ex: "os_path_exists (fs s') ?D"
    unfolding os_path_exists_def f d by (auto simp: os_path_exists_def)
  have w: "files (fs s') ?T = Some (Picture out)"
    unfolding f by simp
  have dir: "?D = truncate_at_first BACKSLASH (fst (splitext (os_path L) f)) @ ustr ''_remove''"
    by (simp add: remove_dir_def tr)
  have tgt: "?T = ?D @ ustr ''/''
         @ truncate_at_first BACKSLASH (fst (splitext (os_path L) f)) @ ustr ''_remove''
         @ str_nat (count s) @ snd (splitext (os_path L) f)"
    by (simp add: remove_target_def remove_dir_def tr ustr_def)
  from dir ex d o w tgt splitext_append show ?thesis by blast
qed

theorem C6_output_directory_and_name_witness:
  "remove_body (plain_library Windows) \<lparr>fs = avante_files, count = 0\<rparr> avante_car =
    (None,
     \<lparr>fs = \<lparr>files = (files avante_files)
                (ustr ''./avante n_remove/./avante n_remove0.png'' \<mapsto> picture 640 480 ''RGBA''),
            dirs = {ustr ''./avante n_remove'', ustr ''./avante n''}\<rparr>, count = Suc 0\<rparr>)
   \<and> BACKSLASH \<in> set (fst (splitext Windows avante_car))
   \<and> remove_dir Windows avante_car = ustr ''./avante n_remove''
   \<and> truncate_at_first BACKSLASH (fst (splitext Windows avante_car)) = ustr ''./avante n''
   \<and> remove_target Windows avante_car 0 = ustr ''./avante n_remove/./avante n_remove0.png''"
proof -
  have b: "BACKSLASH \<in> set (fst (splitext (os_path (plain_library Windows)) avante_car))"
    by (simp add: plain_simps car_split)
  from C6_output_directory_and_name [OF car_step b]
  have "remove_dir Windows avante_car
      = truncate_at_first BACKSLASH (fst (splitext Windows avante_car)) @ ustr ''_remove''"
    by (simp add: plain_simps)
  then have "truncate_at_first BACKSLASH (fst (splitext Windows avante_car)) = ustr ''./avante n''"
    by (simp add: car_dir ustr_def)
  with car_step b car_dir car_target show ?thesis by (simp add: plain_simps)
qed

subsection \<open>The output-naming counter\<close>

text \<open>
  C7: within one run of the background-removal job the counter starts at 0, is
  incremented exactly once per successfully processed file, whatever the directories of
  the files, and persists from file to file: the run processes a prefix of the matched
  list, its final counter is the length of that prefix (the whole list when no exception
  was raised), and the k-th processed file (from 0) is processed at counter value k and
  written under the name carrying k.
\<close>

theorem C7_counter_names_files:
  assumes "remove_job L fsys paths = (r, s')"
  shows "count s' \<le> length paths
    \<and> (r = None \<longrightarrow> count s' = length paths)
    \<and> (\<forall>k < count s'. \<exists>sk sk'.
          for_each (remove_body L) \<lparr>fs = fsys, count = 0\<rparr> (take k paths) = (None, sk)
          \<and> count sk = k
          \<and> remove_body L sk (paths ! k) = (None, sk') \<and> count sk' = Suc k
          \<and> (\<exists>out. files (fs sk') (remove_target (os_path L) (paths ! k) k)
                = Some (Picture out)))
    \<and> (r \<noteq> None \<longrightarrow> count s' < length paths
          \<and> (\<exists>sk. for_each (remove_body L) \<lparr>fs = fsys, count = 0\<rparr> (take (count s') paths)
                  = (None, sk)
                \<and> count sk = count s'
                \<and> fst (remove_body L sk (paths ! count s')) = r))"
proof -
  let ?s0 = "\<lparr>fs = fsys, count = 0\<rparr>"
  from assms have run: "for_each (remove_body L) ?s0 paths = (r, s')"
    by (simp add: remove_job_def)
  note c = remove_loop_counter [OF run]
  have bound: "count s' \<le> length paths" and whole: "r = None \<longrightarrow> count s' = length paths"
    using c by simp_all
  have each: "\<exists>sk sk'. for_each (remove_body L) ?s0 (take k paths) = (None, sk)
          \<and> count sk = k
          \<and> remove_body L sk (paths ! k) = (None, sk') \<and> count sk' = Suc k
          \<and> (\<exists>out. files (fs sk') (remove_target (os_path L) (paths ! k) k)
                = Some (Picture out))"
    if "k < count s'" for k
  proof -
    from c that obtain sk sk' where
      p: "for_each (remove_body L) ?s0 (take k paths) = (None, sk)" "count sk = k"
      and b: "remove_body L sk (paths ! k) = (None, sk')"
      by force
    from remove_body_None [OF b] obtain out where
      "count sk' = count sk + 1"
      "files (fs sk') = (files (fs sk))(remove_target (os_path L) (paths ! k) (count sk)
         \<mapsto> Picture out)"
      by blast
    with p have "count sk' = Suc k"
      "files (fs sk') (remove_target (os_path L) (paths ! k) k) = Some (Picture out)"
      by simp_all
    with p b show ?thesis by blast
  qed
  have stop: "count s' < length paths
          \<and> (\<exists>sk. for_each (remove_body L) ?s0 (take (count s') paths) = (None, sk)
                \<and> count sk = count s'
                \<and> fst (remove_body L sk (paths ! count s')) = r)"
    if "r \<noteq> None"
  proof -
    from c that obtain sk where lt: "count s' < length paths"
      and p: "for_each (remove_body L) ?s0 (take (count s') paths) = (None, sk)"
      and b: "fst (remove_body L sk (paths ! count s')) = r"
      by force
    from remove_loop_counter [OF p] lt have "count sk = count s'" by simp
    with lt p b show ?thesis by blast
  qed
  from bound whole each stop show ?thesis by blast
qed

theorem C7_counter_names_files_witness:
  "fst (remove_job (plain_library Windows) avante_files [avante_car, avante_bus]) = None
   \<and> count (snd (remove_job (plain_library Windows) avante_files [avante_car, avante_bus])) = 2
   \<and> remove_target Windows avante_car 0 = ustr ''./avante n_remove/./avante n_remove0.png''
   \<and> remove_target Windows avante_bus (Suc 0) = ustr ''./avante n_remove/./avante n_remove1.png''"
proof -
  let ?run = "remove_job (plain_library Windows) avante_files [avante_car, avante_bus]"
  have ok: "fst ?run = None" by (simp add: avante_run)
  then have "?run = (None, snd ?run)" by (simp add: prod_eq_iff)
  from C7_counter_names_files [OF this] have "count (snd ?run) = length [avante_car, avante_bus]"
    by blast
  with ok car_target bus_target show ?thesis by simp
qed

subsection \<open>The truncation step of the background-removal job\<close>

lemma truncate_title_cut: "truncate_title title = cut_title title"
  by (simp add: cut_title_def truncate_title_absent truncate_title_present)

lemma remove_body_run:
  assumes "files (fs s) f = Some (Picture opened)"
    and "rembg L (convert L ''RGB'' opened) = Inr out"
    and "os_path_exists (fs s) (remove_dir (os_path L) f)
         \<or> mkdir_ok L (fs s) (remove_dir (os_path L) f)"
    and "save_ok L (after_mkdir (fs s) (remove_dir (os_path L) f))
           (remove_target (os_path L) f (count s))"
  shows "remove_body L s f =
     (None,
      \<lparr>fs = (after_mkdir (fs s) (remove_dir (os_path L) f))
               \<lparr>files := (files (fs s))(remove_target (os_path L) f (count s) \<mapsto> Picture out)\<rparr>,
       count = count s + 1\<rparr>)"
proof (cases "os_path_exists (fs s) (remove_dir (os_path L) f)")
  case True
  with assms(1,2,4) show ?thesis
    by (simp add: remove_body_def Image_open_def save_def after_mkdir_def remove_target_def
        remove_dir_def Let_def ustr_def case_prod_beta)
next
  case False
  with assms show ?thesis
    by (simp add: remove_body_def Image_open_def save_def os_mkdir_def after_mkdir_def
        remove_target_def remove_dir_def Let_def ustr_def case_prod_beta)
qed

text \<open>
  C10: in the background-removal job, for every matched path whose extension-stripped
  title contains no backslash, \<open>find\<close> returns -1 and the truncation \<open>title[:index]\<close> is
  \<open>title[:-1]\<close>: the job goes on with the title without its last character, makes
  the directory of that name plus \<open>_remove\<close> if it is absent, and writes its result
  there under that name plus \<open>_remove\<close>, the counter and the extension. The job goes on
  with the prefix of the title up to the first backslash only when a backslash is
  present. The step is the one that the job runs for the file, whenever the file
  decodes, the background removal returns, and the operating system lets the directory
  be made and the file be written.
\<close>

theorem C10_truncation_without_backslash:
  assumes "files (fs s) f = Some (Picture opened)"
    and "rembg L (convert L ''RGB'' opened) = Inr out"
    and "os_path_exists (fs s) (cut_title (fst (splitext (os_path L) f)) @ ustr ''_remove'')
         \<or> mkdir_ok L (fs s) (cut_title (fst (splitext (os_path L) f)) @ ustr ''_remove'')"
    and "save_ok L
           (after_mkdir (fs s) (cut_title (fst (splitext (os_path L) f)) @ ustr ''_remove''))
           (cut_title (fst (splitext (os_path L) f)) @ ustr ''_remove/''
              @ cut_title (fst (splitext (os_path L) f)) @ ustr ''_remove''
              @ str_nat (count s) @ snd (splitext (os_path L) f))"
  shows "remove_body L s f =
       (None,
        \<lparr>fs = (after_mkdir (fs s) (cut_title (fst (splitext (os_path L) f)) @ ustr ''_remove''))
                 \<lparr>files := (files (fs s))
                    (cut_title (fst (splitext (os_path L) f)) @ ustr ''_remove/''
                       @ cut_title (fst (splitext (os_path L) f)) @ ustr ''_remove''
                       @ str_nat (count s) @ snd (splitext (os_path L) f)
                     \<mapsto> Picture out)\<rparr>,
         count = count s + 1\<rparr>)
    \<and> (count s = 0 \<longrightarrow>
         remove_job L (fs s) [f] =
           (None,
            \<lparr>fs = (after_mkdir (fs s)
                      (cut_title (fst (splitext (os_path L) f)) @ ustr ''_remove''))
                     \<lparr>files := (files (fs s))
                        (cut_title (fst (splitext (os_path L) f)) @ ustr ''_remove/''
                           @ cut_title (fst (splitext (os_path L) f)) @ ustr ''_remove''
                           @ str_nat 0 @ snd (splitext (os_path L) f)
                         \<mapsto> Picture out)\<rparr>,
             count = 1\<rparr>))
    \<and> (BACKSLASH \<notin> set (fst (splitext (os_path L) f)) \<longrightarrow>
         py_find (fst (splitext (os_path L) f)) BACKSLASH = - 1
         \<and> slice_to (fst (splitext (os_path L) f)) (- 1) = butlast (fst (splitext (os_path L) f))
         \<and> cut_title (fst (splitext (os_path L) f)) = butlast (fst (splitext (os_path L) f))
         \<and> (fst (splitext (os_path L) f) \<noteq> [] \<longrightarrow>
              cut_title (fst (splitext (os_path L) f)) @ [last (fst (splitext (os_path L) f))]
                = fst (splitext (os_path L) f)))
    \<and> (BACKSLASH \<in> set (fst (splitext (os_path L) f)) \<longrightarrow>
         cut_title (fst (splitext (os_path L) f))
           = takeWhile (\<lambda>c. c \<noteq> BACKSLASH) (fst (splitext (os_path L) f)))"
proof -
  let ?t = "fst (splitext (os_path L) f)" and ?e = "snd (splitext (os_path L) f)"
  have d: "remove_dir (os_path L) f = cut_title ?t @ ustr ''_remove''"
    by (simp add: remove_dir_def truncate_title_cut)
  have t: "remove_target (os_path L) f k
      = cut_title ?t @ ustr ''_remove/'' @ cut_title ?t @ ustr ''_remove'' @ str_nat k @ ?e" for k
    by (simp add: remove_target_def truncate_title_cut)
  have step: "remove_body L s f =
       (None,
        \<lparr>fs = (after_mkdir (fs s) (cut_title ?t @ ustr ''_remove''))
                 \<lparr>files := (files (fs s))
                    (cut_title ?t @ ustr ''_remove/'' @ cut_title ?t @ ustr ''_remove''
                       @ str_nat (count s) @ ?e \<mapsto> Picture out)\<rparr>,
         count = count s + 1\<rparr>)"
    using remove_body_run [of s f opened L out] assms
    unfolding d t by blast
  have job: "remove_job L (fs s) [f] =
           (None,
            \<lparr>fs = (after_mkdir (fs s) (cut_title ?t @ ustr ''_remove''))
                     \<lparr>files := (files (fs s))
                        (cut_title ?t @ ustr ''_remove/'' @ cut_title ?t @ ustr ''_remove''
                           @ str_nat 0 @ ?e \<mapsto> Picture out)\<rparr>,
             count = 1\<rparr>)"
    if "count s = 0"
  proof -
    from that have eq: "\<lparr>fs = fs s, count = 0\<rparr> = s" by simp
    have "remove_job L (fs s) [f] = (case remove_body L s f of
        (Some e, s') \<Rightarrow> (Some e, s') | (None, s') \<Rightarrow> (None, s'))"
      by (simp add: remove_job_def eq split: prod.splits option.splits)
    also have "\<dots> = (None,
        \<lparr>fs = (after_mkdir (fs s) (cut_title ?t @ ustr ''_remove''))
                 \<lparr>files := (files (fs s))
                    (cut_title ?t @ ustr ''_remove/'' @ cut_title ?t @ ustr ''_remove''
                       @ str_nat (count s) @ ?e \<mapsto> Picture out)\<rparr>,
         count = count s + 1\<rparr>)"
      by (simp only: step prod.case option.case)
    finally show ?thesis using that by simp
  qed
  have absent: "py_find ?t BACKSLASH = - 1 \<and> slice_to ?t (- 1) = butlast ?t
      \<and> cut_title ?t = butlast ?t \<and> (?t \<noteq> [] \<longrightarrow> cut_title ?t @ [last ?t] = ?t)"
    if "BACKSLASH \<notin> set ?t"
    using that by (simp add: py_find_absent slice_to_minus_one cut_title_def)
  have present: "cut_title ?t = takeWhile (\<lambda>c. c \<noteq> BACKSLASH) ?t" if "BACKSLASH \<in> set ?t"
    using that by (simp add: cut_title_def)
  from step job absent present show ?thesis by blast
qed

lemma posix_car_split: "splitext Posix posix_car = (ustr ''./avante n/car'', ustr ''.png'')"
  by (simp add: posix_car_def path_defs str_defs)

lemma posix_car_cut: "cut_title (ustr ''./avante n/car'') = ustr ''./avante n/ca''"
  by (simp add: cut_title_def str_defs)

theorem C10_truncation_without_backslash_witness:
  "BACKSLASH \<notin> set (fst (splitext Posix posix_car))
   \<and> fst (splitext Posix posix_car) = ustr ''./avante n/car''
   \<and> py_find (ustr ''./avante n/car'') BACKSLASH = - 1
   \<and> remove_job (plain_library Posix) posix_files [posix_car] =
       (None,
        \<lparr>fs = posix_files
                \<lparr>files := (files posix_files)
                   (ustr ''./avante n/ca_remove/./avante n/ca_remove0.png''
                      \<mapsto> picture 640 480 ''RGBA'')\<rparr>,
         count = 1\<rparr>)"
proof -
  let ?L = "plain_library Posix" and ?s = "\<lparr>fs = posix_files, count = 0\<rparr>"
  have t: "fst (splitext (os_path ?L) posix_car) = ustr ''./avante n/car''"
    and e: "snd (splitext (os_path ?L) posix_car) = ustr ''.png''"
    by (simp_all add: plain_simps posix_car_split)
  have nb: "BACKSLASH \<notin> set (ustr ''./avante n/car'')"
    by (simp add: str_defs)
  have op: "files (fs ?s) posix_car
      = Some (Picture \<lparr>dims = (640, 480), mode = ''RGB'', pixels = ()\<rparr>)"
    by (simp add: posix_files_def picture_def)
  have rb: "rembg ?L (convert ?L ''RGB'' \<lparr>dims = (640, 480), mode = ''RGB'', pixels = ()\<rparr>)
      = Inr \<lparr>dims = (640, 480), mode = ''RGBA'', pixels = ()\<rparr>"
    by (simp add: plain_simps)
  have ex: "os_path_exists (fs ?s) (ustr ''./avante n/ca_remove'')"
    by (simp add: os_path_exists_def posix_files_def)
  have am: "after_mkdir posix_files (ustr ''./avante n/ca_remove'') = posix_files"
    using ex by (simp add: after_mkdir_def)
  have nm: "ustr ''./avante n/ca'' @ ustr ''_remove'' = ustr ''./avante n/ca_remove''"
    "ustr ''./avante n/ca'' @ ustr ''_remove/'' @ ustr ''./avante n/ca'' @ ustr ''_remove''
       @ str_nat 0 @ ustr ''.png'' = ustr ''./avante n/ca_remove/./avante n/ca_remove0.png''"
    by (simp_all add: ustr_def str_nat.simps)
  have c0: "count ?s = 0" by simp
  from C10_truncation_without_backslash [OF op rb, unfolded t e posix_car_cut nm] ex nb c0
  have "py_find (ustr ''./avante n/car'') BACKSLASH = - 1"
    and "remove_job ?L (fs ?s) [posix_car] =
       (None,
        \<lparr>fs = (after_mkdir (fs ?s) (ustr ''./avante n/ca_remove''))
                \<lparr>files := (files (fs ?s))
                   (ustr ''./avante n/ca_remove/./avante n/ca_remove0.png''
                      \<mapsto> Picture \<lparr>dims = (640, 480), mode = ''RGBA'', pixels = ()\<rparr>)\<rparr>,
         count = 1\<rparr>)"
    by (simp_all add: plain_simps)
  with nb t am show ?thesis
    by (simp add: plain_simps picture_def)
qed

end
